theory Spec2Isabelle
  imports Complex_Main "HOL-Library.Word"
begin

section \<open>Primitive renderer of cprocessing (primitives.cpp)\<close>

text \<open>
  The translation unit keeps six file-level variables (the ellipse mode, the ellipse mesh,
  the sphere detail and the sphere mesh with its index array), reads the two colours
  \<open>fillColor\<close> and \<open>strokeColor\<close> owned by another unit, and issues OpenGL calls.
  The model threads one record through every function: the six variables, the two colours
  and the sequence of OpenGL calls issued so far.

  Conventions of the embedding:
  \<^item> \<open>unsigned\<close> and \<open>int\<close> are \<open>32 word\<close>; an \<open>int\<close> is read with \<open>sint\<close>,
    compared with \<open><s\<close>, and its arithmetic wraps around (the C++ standard leaves signed
    overflow undefined; two's-complement wrap-around is what the usual targets do);
  \<^item> \<open>double\<close> and \<open>float\<close> are the real numbers they approximate: rounding is outside
    the model, \<open>M_PI\<close> is \<open>pi\<close>;
  \<^item> an access \<open>v[0]\<close> to an empty vector and a failed \<open>assert\<close> are error results:
    a call that runs into one has no resulting state;
  \<^item> a floating-point division by zero is an error result of the function that evaluates
    it, which marks that the division took place; the program itself carries on with a
    value that is not a number, and the relation \<open>step\<close> below gives the state it reaches;
  \<^item> a \<open>std::vector\<close> is a list, and \<open>push_back\<close> always succeeds (memory is not
    bounded).
\<close>

subsection \<open>Data\<close>

datatype error = DivisionByZero | OutOfRange | AssertionFailed

text \<open>\<open>PVector\<close> (declared in cprocessing.hpp): three \<open>double\<close> coordinates.\<close>

datatype PVector = PVector (px: real) (py: real) (pz: real)

text \<open>A colour is an array \<open>rgba\<close> of four bytes; \<open>rgba[3]\<close> is the alpha byte.\<close>

type_synonym color = "8 word \<times> 8 word \<times> 8 word \<times> 8 word"

fun rgba3 :: "color \<Rightarrow> 8 word" where
  "rgba3 (r, g, b, a) = a"

datatype gl_enum =
    GL_POINTS | GL_LINES | GL_LINE_LOOP | GL_TRIANGLES | GL_QUADS | GL_QUAD_STRIP | GL_POLYGON
  | GL_VERTEX_ARRAY | GL_NORMAL_ARRAY | GL_DOUBLE | GL_UNSIGNED_INT
  | GL_FRONT_AND_BACK | GL_FILL | GL_LINE | GL_MODELVIEW
  | GL_POLYGON_OFFSET_FILL | GL_LIGHTING | GL_ENABLE_BIT

text \<open>What a vertex or normal pointer points at: a local array of doubles, or the
  storage of a vector of \<open>PVector\<close>.\<close>

datatype buffer = DoubleArray "real list" | VectorArray "PVector list"

datatype gl_call =
    GlColor4ubv color
  | GlBegin gl_enum
  | GlVertex3d real real real
  | GlEnd
  | GlEnableClientState gl_enum
  | GlDisableClientState gl_enum
  | GlVertexPointer nat gl_enum nat buffer
  | GlNormalPointer gl_enum nat buffer
  | GlPolygonMode gl_enum gl_enum
  | GlDrawArrays gl_enum "32 word" "32 word"
  | GlDrawElements gl_enum "32 word" gl_enum "32 word list"
  | GlMatrixMode gl_enum
  | GlPushMatrix
  | GlPopMatrix
  | GlTranslatef real real real
  | GlScalef real real real
  | GlScaled real real real
  | GlEnable gl_enum
  | GlDisable gl_enum
  | GlPushAttrib gl_enum
  | GlPopAttrib

text \<open>The constants \<open>CENTER\<close>, \<open>RADIUS\<close>, \<open>CORNER\<close> and \<open>CORNERS\<close> come from
  cprocessing.hpp, which is not part of the sources: they are a parameter of the model.\<close>

record mode_constants =
  CENTER :: "32 word"
  RADIUS :: "32 word"
  CORNER :: "32 word"
  CORNERS :: "32 word"

record state =
  g_ellipseMode :: "32 word"
  ellipseVtx :: "PVector list"
  ures :: "32 word"
  vres :: "32 word"
  sphereVtx :: "PVector list"
  sphereIdx :: "32 word list"
  fillColor :: color
  strokeColor :: color
  gl :: "gl_call list"

text \<open>The variables as the program starts: \<open>ellipseMode = CENTER\<close>, empty vectors,
  zero-initialised \<open>ures\<close> and \<open>vres\<close>, nothing drawn yet.\<close>

definition init :: "mode_constants \<Rightarrow> color \<Rightarrow> color \<Rightarrow> state" where
  "init k fc sc =
     \<lparr>g_ellipseMode = CENTER k, ellipseVtx = [], ures = 0, vres = 0,
      sphereVtx = [], sphereIdx = [], fillColor = fc, strokeColor = sc, gl = []\<rparr>"

definition emit :: "gl_call list \<Rightarrow> state \<Rightarrow> state" where
  "emit cs s = s\<lparr>gl := gl s @ cs\<rparr>"

definition M_PI :: real where
  "M_PI = pi"

text \<open>Modelled from the spec: the macros \<open>PI\<close> and \<open>TWO_PI\<close> of cprocessing.hpp, which is
  not part of the sources; a half and a full revolution.\<close>

definition PI :: real where
  "PI = pi"

definition TWO_PI :: real where
  "TWO_PI = 2 * pi"

definition fdiv :: "real \<Rightarrow> real \<Rightarrow> error + real" where
  "fdiv a b = (if b = 0 then Inl DivisionByZero else Inr (a / b))"

text \<open>\<open>v[0]\<close> on a \<open>std::vector\<close>.\<close>

definition at0 :: "'a list \<Rightarrow> error + 'a" where
  "at0 xs = (case xs of [] \<Rightarrow> Inl OutOfRange | x # _ \<Rightarrow> Inr x)"

subsection \<open>ellipseDetail\<close>

text \<open>Incrementing a loop counter that is below its bound does not wrap.\<close>

lemma word_less_unat_Suc:
  fixes i n :: "'a::len word"
  assumes "i < n"
  shows "unat (i + 1) = Suc (unat i)"
proof -
  have "unat i < unat n"
    using assms by (simp add: word_less_nat_alt)
  moreover have "unat n < 2 ^ LENGTH('a)"
    by simp
  ultimately have "unat i + 1 < 2 ^ LENGTH('a)"
    by linarith
  then show ?thesis
    by (simp add: unat_word_ariths take_bit_nat_eq_self unat_add_lem[THEN iffD1])
qed

lemma sless_sint_Suc:
  fixes i n :: "32 word"
  assumes "i <s n"
  shows "sint (i + 1) = sint i + 1"
proof -
  have "sint i < sint n"
    using assms by (simp add: word_sless_alt)
  moreover have "sint n < 2 ^ 31"
    using sint_lt [of n] by simp
  moreover have "- (2 ^ 31) \<le> sint i"
    using sint_ge [of i] by simp
  ultimately have "- (2 ^ 31) \<le> sint i + 1" "sint i + 1 < 2 ^ 31"
    by linarith+
  then have "signed_take_bit 31 (sint i + 1) = sint i + 1"
    by (rule signed_take_bit_int_eq_self)
  then show ?thesis
    by (simp add: sint_word_ariths)
qed

lemma sless_measure:
  fixes i n :: "32 word"
  assumes "sint i < sint n"
  shows "sint i < sint (i + 1)"
  using sless_sint_Suc [of i n] assms by (simp add: word_sless_alt)

function ellipseDetail_loop :: "32 word \<Rightarrow> 32 word \<Rightarrow> PVector list \<Rightarrow> error + PVector list" where
  "ellipseDetail_loop n i vtx =
     (if i < n then
        (case fdiv (M_PI * 2 * real (unat i)) (real (unat n)) of
           Inl e \<Rightarrow> Inl e
         | Inr ang \<Rightarrow>
             let x = cos ang / 2;
                 y = sin ang / 2
             in ellipseDetail_loop n (i + 1) (vtx @ [PVector x y 0]))
      else Inr vtx)"
  by pat_completeness auto
termination
  by (relation "measure (\<lambda>(n, i, vtx). unat n - unat i)")
     (auto simp: word_less_unat_Suc word_less_nat_alt)

declare ellipseDetail_loop.simps [simp del]

definition ellipseDetail :: "32 word \<Rightarrow> state \<Rightarrow> error + state" where
  "ellipseDetail n s =
     (case ellipseDetail_loop n 0 [] of
        Inl e \<Rightarrow> Inl e
      | Inr vtx \<Rightarrow> Inr (s\<lparr>ellipseVtx := vtx\<rparr>))"

subsection \<open>ellipseMode and ellipse\<close>

definition ellipseMode :: "mode_constants \<Rightarrow> 32 word \<Rightarrow> state \<Rightarrow> error + state" where
  "ellipseMode k mode s =
     (if mode = CENTER k \<or> mode = RADIUS k \<or> mode = CORNER k \<or> mode = CORNERS k
      then Inr (s\<lparr>g_ellipseMode := mode\<rparr>)
      else Inl AssertionFailed)"

text \<open>The \<open>switch\<close> at the head of \<open>ellipse\<close>: the new values of
  \<open>x\<close>, \<open>y\<close>, \<open>width\<close> and \<open>height\<close>. There is no case for \<open>CORNER\<close>
  and no default.\<close>

definition ellipse_switch ::
  "mode_constants \<Rightarrow> 32 word \<Rightarrow> real \<Rightarrow> real \<Rightarrow> real \<Rightarrow> real \<Rightarrow> real \<times> real \<times> real \<times> real" where
  "ellipse_switch k mode x y width height =
     (if mode = CENTER k then (x - width / 2, y - height / 2, width, height)
      else if mode = RADIUS k then (x - width, y - height, width * 2, height * 2)
      else if mode = CORNERS k then (x, y, width - x, height - y)
      else (x, y, width, height))"

definition ellipse ::
  "mode_constants \<Rightarrow> real \<Rightarrow> real \<Rightarrow> real \<Rightarrow> real \<Rightarrow> state \<Rightarrow> error + state" where
  "ellipse k x0 y0 width0 height0 s =
     (case ellipse_switch k (g_ellipseMode s) x0 y0 width0 height0 of
        (x, y, width, height) \<Rightarrow>
          let s1 = emit [GlMatrixMode GL_MODELVIEW, GlPushMatrix, GlTranslatef x y 0,
                         GlScalef width height 1, GlTranslatef (1 / 2) (1 / 2) 0,
                         GlEnableClientState GL_VERTEX_ARRAY] s
          in case at0 (ellipseVtx s1) of
               Inl e \<Rightarrow> Inl e
             | Inr v0 \<Rightarrow>
                 let s2 = emit [GlVertexPointer 3 GL_DOUBLE 0 (VectorArray (ellipseVtx s1))] s1;
                     s3 = (if 0 < rgba3 (fillColor s2)
                           then emit [GlColor4ubv (fillColor s2),
                                      GlPolygonMode GL_FRONT_AND_BACK GL_FILL,
                                      GlDrawArrays GL_POLYGON 0 (of_nat (length (ellipseVtx s2)))] s2
                           else s2);
                     s4 = (if 0 < rgba3 (strokeColor s3)
                           then emit [GlColor4ubv (strokeColor s3),
                                      GlDrawArrays GL_LINE_LOOP 0 (of_nat (length (ellipseVtx s3)))] s3
                           else s3)
                 in Inr (emit [GlDisableClientState GL_VERTEX_ARRAY, GlPopMatrix] s4))"

subsection \<open>sphereDetail\<close>

function sphereDetail_phi ::
  "32 word \<Rightarrow> real \<Rightarrow> real \<Rightarrow> 32 word \<Rightarrow> PVector list \<Rightarrow> error + PVector list" where
  "sphereDetail_phi ur sintheta costheta iphi vtx =
     (if iphi <s ur then
        (case fdiv PI (real_of_int (sint (ur - 1))) of
           Inl e \<Rightarrow> Inl e
         | Inr q \<Rightarrow>
             let phi = q * real_of_int (sint iphi);
                 sinphi = sin phi;
                 cosphi = cos phi;
                 y = cosphi;
                 x = sinphi * costheta;
                 z = sinphi * sintheta
             in sphereDetail_phi ur sintheta costheta (iphi + 1) (vtx @ [PVector x y z]))
      else Inr vtx)"
  by pat_completeness auto
termination
  by (relation "measure (\<lambda>(ur, sintheta, costheta, iphi, vtx). nat (sint ur - sint iphi))")
     (auto simp: word_sless_alt intro: sless_measure)

declare sphereDetail_phi.simps [simp del]

function sphereDetail_theta ::
  "32 word \<Rightarrow> 32 word \<Rightarrow> 32 word \<Rightarrow> PVector list \<Rightarrow> error + PVector list" where
  "sphereDetail_theta ur vr itheta vtx =
     (if itheta <s vr then
        (case fdiv TWO_PI (real_of_int (sint (vr - 1))) of
           Inl e \<Rightarrow> Inl e
         | Inr q \<Rightarrow>
             let theta = q * real_of_int (sint itheta);
                 sintheta = sin theta;
                 costheta = cos theta
             in (case sphereDetail_phi ur sintheta costheta 0 vtx of
                   Inl e \<Rightarrow> Inl e
                 | Inr vtx' \<Rightarrow> sphereDetail_theta ur vr (itheta + 1) vtx'))
      else Inr vtx)"
  by pat_completeness auto
termination
  by (relation "measure (\<lambda>(ur, vr, itheta, vtx). nat (sint vr - sint itheta))")
     (auto simp: word_sless_alt intro: sless_measure)

declare sphereDetail_theta.simps [simp del]

function sphereDetail_row :: "32 word \<Rightarrow> 32 word \<Rightarrow> 32 word \<Rightarrow> 32 word list \<Rightarrow> 32 word list" where
  "sphereDetail_row ur icol irow idx =
     (if irow <s ur
      then sphereDetail_row ur icol (irow + 1) (idx @ [icol * ur + irow, (icol + 1) * ur + irow])
      else idx)"
  by pat_completeness auto
termination
  by (relation "measure (\<lambda>(ur, icol, irow, idx). nat (sint ur - sint irow))")
     (auto simp: word_sless_alt intro: sless_measure)

declare sphereDetail_row.simps [simp del]

function sphereDetail_col :: "32 word \<Rightarrow> 32 word \<Rightarrow> 32 word \<Rightarrow> 32 word list \<Rightarrow> 32 word list" where
  "sphereDetail_col ur vr icol idx =
     (if icol <s vr - 1
      then sphereDetail_col ur vr (icol + 1) (sphereDetail_row ur icol 0 idx)
      else idx)"
  by pat_completeness auto
termination
  by (relation "measure (\<lambda>(ur, vr, icol, idx). nat (sint (vr - 1) - sint icol))")
     (auto simp: word_sless_alt intro: sless_measure)

declare sphereDetail_col.simps [simp del]

definition sphereDetail :: "32 word \<Rightarrow> 32 word \<Rightarrow> state \<Rightarrow> error + state" where
  "sphereDetail ur vr s =
     (let s1 = s\<lparr>ures := ur, vres := vr\<rparr>
      in case sphereDetail_theta ur vr 0 [] of
           Inl e \<Rightarrow> Inl e
         | Inr vtx \<Rightarrow> Inr (s1\<lparr>sphereVtx := vtx, sphereIdx := sphereDetail_col ur vr 0 []\<rparr>))"

subsection \<open>sphere\<close>

definition sphere :: "real \<Rightarrow> state \<Rightarrow> error + state" where
  "sphere radius s =
     (let s1 = emit [GlPushMatrix, GlScaled radius radius radius,
                     GlEnableClientState GL_VERTEX_ARRAY] s
      in case at0 (sphereVtx s1) of
           Inl e \<Rightarrow> Inl e
         | Inr v0 \<Rightarrow>
             let s2 = emit [GlVertexPointer 3 GL_DOUBLE 0 (VectorArray (sphereVtx s1)),
                            GlEnableClientState GL_NORMAL_ARRAY,
                            GlNormalPointer GL_DOUBLE 0 (VectorArray (sphereVtx s1))] s1
             in case (if 0 < rgba3 (fillColor s2)
                      then (case at0 (sphereIdx s2) of
                              Inl e \<Rightarrow> Inl e
                            | Inr i0 \<Rightarrow>
                                Inr (emit [GlColor4ubv (fillColor s2),
                                           GlPolygonMode GL_FRONT_AND_BACK GL_FILL,
                                           GlEnable GL_POLYGON_OFFSET_FILL,
                                           GlDrawElements GL_QUAD_STRIP (ures s2 * (vres s2 - 1) * 2)
                                             GL_UNSIGNED_INT (sphereIdx s2),
                                           GlDisable GL_POLYGON_OFFSET_FILL] s2))
                      else Inr s2) of
                  Inl e \<Rightarrow> Inl e
                | Inr s3 \<Rightarrow>
                    (case (if 0 < rgba3 (strokeColor s3)
                           then (case at0 (sphereIdx s3) of
                                   Inl e \<Rightarrow> Inl e
                                 | Inr i0 \<Rightarrow>
                                     Inr (emit [GlPushAttrib GL_ENABLE_BIT,
                                                GlDisable GL_LIGHTING,
                                                GlColor4ubv (strokeColor s3),
                                                GlPolygonMode GL_FRONT_AND_BACK GL_LINE,
                                                GlDrawElements GL_QUAD_STRIP (ures s3 * (vres s3 - 1) * 2)
                                                  GL_UNSIGNED_INT (sphereIdx s3),
                                                GlPopAttrib] s3))
                           else Inr s3) of
                       Inl e \<Rightarrow> Inl e
                     | Inr s4 \<Rightarrow>
                         Inr (emit [GlDisableClientState GL_VERTEX_ARRAY,
                                    GlDisableClientState GL_NORMAL_ARRAY,
                                    GlPopMatrix] s4)))"

subsection \<open>line, triangle, quad, point\<close>

definition line :: "real \<Rightarrow> real \<Rightarrow> real \<Rightarrow> real \<Rightarrow> real \<Rightarrow> real \<Rightarrow> state \<Rightarrow> state" where
  "line x0 y0 z0 x1 y1 z1 s =
     (if 0 < rgba3 (strokeColor s)
      then emit [GlColor4ubv (strokeColor s), GlBegin GL_LINES, GlVertex3d x0 y0 z0,
                 GlVertex3d x1 y1 z1, GlEnd] s
      else s)"

definition triangle ::
  "real \<Rightarrow> real \<Rightarrow> real \<Rightarrow> real \<Rightarrow> real \<Rightarrow> real \<Rightarrow> real \<Rightarrow> real \<Rightarrow> real \<Rightarrow> state \<Rightarrow> state" where
  "triangle x0 y0 z0 x1 y1 z1 x2 y2 z2 s =
     (let vertices = [x0, y0, z0, x1, y1, z1, x2, y2, z2];
          s1 = emit [GlEnableClientState GL_VERTEX_ARRAY,
                     GlVertexPointer 3 GL_DOUBLE 0 (DoubleArray vertices)] s;
          s2 = (if 0 < rgba3 (fillColor s1)
                then emit [GlColor4ubv (fillColor s1), GlPolygonMode GL_FRONT_AND_BACK GL_FILL,
                           GlDrawArrays GL_TRIANGLES 0 3] s1
                else s1);
          s3 = (if 0 < rgba3 (strokeColor s2)
                then emit [GlColor4ubv (strokeColor s2), GlPolygonMode GL_FRONT_AND_BACK GL_LINE,
                           GlDrawArrays GL_TRIANGLES 0 3] s2
                else s2)
      in emit [GlDisableClientState GL_VERTEX_ARRAY] s3)"

definition quad ::
  "real \<Rightarrow> real \<Rightarrow> real \<Rightarrow> real \<Rightarrow> real \<Rightarrow> real \<Rightarrow> real \<Rightarrow> real \<Rightarrow> state \<Rightarrow> state" where
  "quad x0 y0 x1 y1 x2 y2 x3 y3 s =
     (let vertices = [x0, y0, x1, y1, x2, y2, x3, y3];
          s1 = emit [GlEnableClientState GL_VERTEX_ARRAY,
                     GlVertexPointer 2 GL_DOUBLE 0 (DoubleArray vertices)] s;
          s2 = (if 0 < rgba3 (fillColor s1)
                then emit [GlColor4ubv (fillColor s1), GlPolygonMode GL_FRONT_AND_BACK GL_FILL,
                           GlDrawArrays GL_QUADS 0 4] s1
                else s1);
          s3 = (if 0 < rgba3 (strokeColor s2)
                then emit [GlColor4ubv (strokeColor s2), GlPolygonMode GL_FRONT_AND_BACK GL_LINE,
                           GlDrawArrays GL_QUADS 0 4] s2
                else s2)
      in emit [GlDisableClientState GL_VERTEX_ARRAY] s3)"

definition point :: "real \<Rightarrow> real \<Rightarrow> real \<Rightarrow> state \<Rightarrow> state" where
  "point x y z s =
     (if 0 < rgba3 (strokeColor s)
      then emit [GlColor4ubv (strokeColor s), GlBegin GL_POINTS, GlVertex3d x y z, GlEnd] s
      else s)"

subsection \<open>Sequences of calls\<close>

text \<open>The public functions of the unit, as a caller invokes them.\<close>

datatype call =
    Line real real real real real real
  | Triangle real real real real real real real real real
  | Quad real real real real real real real real
  | Point real real real
  | EllipseDetail "32 word"
  | EllipseMode "32 word"
  | Ellipse real real real real
  | SphereDetail "32 word" "32 word"
  | Sphere real

fun run :: "mode_constants \<Rightarrow> call \<Rightarrow> state \<Rightarrow> error + state" where
  "run k (Line x0 y0 z0 x1 y1 z1) s = Inr (line x0 y0 z0 x1 y1 z1 s)"
| "run k (Triangle x0 y0 z0 x1 y1 z1 x2 y2 z2) s = Inr (triangle x0 y0 z0 x1 y1 z1 x2 y2 z2 s)"
| "run k (Quad x0 y0 x1 y1 x2 y2 x3 y3) s = Inr (quad x0 y0 x1 y1 x2 y2 x3 y3 s)"
| "run k (Point x y z) s = Inr (point x y z s)"
| "run k (EllipseDetail n) s = ellipseDetail n s"
| "run k (EllipseMode mode) s = ellipseMode k mode s"
| "run k (Ellipse x y width height) s = ellipse k x y width height s"
| "run k (SphereDetail ur vr) s = sphereDetail ur vr s"
| "run k (Sphere radius) s = sphere radius s"

text \<open>
  What the program does from one call to the next. A call that returns leaves the state it
  returns. A floating-point division by zero does not stop the program: the quotient is an
  infinity, what is computed from it is not a number, and \<open>sphereDetail\<close> runs both of
  its loop nests to the end. Every iteration of the inner vertex loop pushes one vertex,
  whatever it computed, and the index loops do no floating-point arithmetic; so the call
  leaves \<open>ures\<close> and \<open>vres\<close> stored, as many vertices as the loop bounds give, and the
  index array of the index loops. The coordinates of these vertices are not all real
  numbers, and the relation leaves them open. A failed assertion ends the program, and the
  access \<open>v[0]\<close> to an empty vector is undefined: after these there is no next state.
\<close>

inductive step :: "mode_constants \<Rightarrow> call \<Rightarrow> state \<Rightarrow> state \<Rightarrow> bool"
  for k :: mode_constants where
  returns: "run k c s = Inr s' \<Longrightarrow> step k c s s'"
| carries_on:
    "sphereDetail ur vr s = Inl DivisionByZero \<Longrightarrow>
     length vtx = nat (sint ur) * nat (sint vr) \<Longrightarrow>
     step k (SphereDetail ur vr) s
       (s\<lparr>ures := ur, vres := vr, sphereVtx := vtx, sphereIdx := sphereDetail_col ur vr 0 []\<rparr>)"

inductive steps :: "mode_constants \<Rightarrow> call list \<Rightarrow> state \<Rightarrow> state \<Rightarrow> bool"
  for k :: mode_constants where
  no_call: "steps k [] s s"
| next_call: "step k c s s' \<Longrightarrow> steps k cs s' s'' \<Longrightarrow> steps k (c # cs) s s''"

code_pred step .

code_pred steps .

fun is_EllipseMode :: "call \<Rightarrow> bool" where
  "is_EllipseMode (EllipseMode mode) = True"
| "is_EllipseMode c = False"

text \<open>The OpenGL calls issued between two states of the same run.\<close>

definition issued :: "state \<Rightarrow> state \<Rightarrow> gl_call list" where
  "issued s s' = drop (length (gl s)) (gl s')"

subsection \<open>Reading a sequence of OpenGL calls\<close>

text \<open>
  What the calls mean is fixed by OpenGL, not by this unit. The part of the OpenGL state
  that the properties below speak about: the matrix mode, the modelview matrix with its
  stack, and the polygon mode. The modelview matrix is kept as the map it applies to a
  vertex; \<open>glTranslate\<close> and \<open>glScale\<close> multiply the current matrix on the right, so
  the new map applies the translation or scaling first and the old map after it. Popping an
  empty stack is an OpenGL error that leaves the matrix as it is.
\<close>

record gl_state =
  matrix_mode :: gl_enum
  modelview :: "PVector \<Rightarrow> PVector"
  stack :: "(PVector \<Rightarrow> PVector) list"
  polygon_mode :: gl_enum

definition translate :: "real \<Rightarrow> real \<Rightarrow> real \<Rightarrow> PVector \<Rightarrow> PVector" where
  "translate x y z v = PVector (px v + x) (py v + y) (pz v + z)"

definition scale :: "real \<Rightarrow> real \<Rightarrow> real \<Rightarrow> PVector \<Rightarrow> PVector" where
  "scale x y z v = PVector (px v * x) (py v * y) (pz v * z)"

definition mult_matrix :: "(PVector \<Rightarrow> PVector) \<Rightarrow> gl_state \<Rightarrow> gl_state" where
  "mult_matrix f g =
     (if matrix_mode g = GL_MODELVIEW then g\<lparr>modelview := (\<lambda>v. modelview g (f v))\<rparr> else g)"

fun gl_step :: "gl_call \<Rightarrow> gl_state \<Rightarrow> gl_state" where
  "gl_step (GlMatrixMode m) g = g\<lparr>matrix_mode := m\<rparr>"
| "gl_step GlPushMatrix g =
     (if matrix_mode g = GL_MODELVIEW then g\<lparr>stack := modelview g # stack g\<rparr> else g)"
| "gl_step GlPopMatrix g =
     (if matrix_mode g = GL_MODELVIEW
      then (case stack g of [] \<Rightarrow> g | m # ms \<Rightarrow> g\<lparr>modelview := m, stack := ms\<rparr>)
      else g)"
| "gl_step (GlTranslatef x y z) g = mult_matrix (translate x y z) g"
| "gl_step (GlScalef x y z) g = mult_matrix (scale x y z) g"
| "gl_step (GlScaled x y z) g = mult_matrix (scale x y z) g"
| "gl_step (GlPolygonMode face m) g = g\<lparr>polygon_mode := m\<rparr>"
| "gl_step c g = g"

fun is_draw :: "gl_call \<Rightarrow> bool" where
  "is_draw (GlDrawArrays m first count) = True"
| "is_draw (GlDrawElements m count t indices) = True"
| "is_draw c = False"

text \<open>Every draw call of a sequence, with the OpenGL state it is issued in.\<close>

fun gl_draws :: "gl_call list \<Rightarrow> gl_state \<Rightarrow> (gl_call \<times> gl_state) list" where
  "gl_draws [] g = []"
| "gl_draws (c # cs) g = (if is_draw c then [(c, g)] else []) @ gl_draws cs (gl_step c g)"

fun primitive :: "gl_call \<Rightarrow> gl_enum option" where
  "primitive (GlDrawArrays m first count) = Some m"
| "primitive (GlDrawElements m count t indices) = Some m"
| "primitive c = None"

definition polygon_primitive :: "gl_call \<Rightarrow> bool" where
  "polygon_primitive c =
     (primitive c = Some GL_TRIANGLES \<or> primitive c = Some GL_QUADS
      \<or> primitive c = Some GL_QUAD_STRIP \<or> primitive c = Some GL_POLYGON)"

text \<open>A fill pass rasterizes the interior of polygons; an outline pass draws polygons
  in line mode, or draws a line primitive.\<close>

definition fill_pass :: "gl_call \<times> gl_state \<Rightarrow> bool" where
  "fill_pass d = (polygon_primitive (fst d) \<and> polygon_mode (snd d) = GL_FILL)"

definition outline_pass :: "gl_call \<times> gl_state \<Rightarrow> bool" where
  "outline_pass d =
     ((polygon_primitive (fst d) \<and> polygon_mode (snd d) = GL_LINE)
      \<or> primitive (fst d) = Some GL_LINES \<or> primitive (fst d) = Some GL_LINE_LOOP)"

definition fill_passes :: "gl_call list \<Rightarrow> gl_state \<Rightarrow> nat" where
  "fill_passes cs g = length (filter fill_pass (gl_draws cs g))"

definition outline_passes :: "gl_call list \<Rightarrow> gl_state \<Rightarrow> nat" where
  "outline_passes cs g = length (filter outline_pass (gl_draws cs g))"

fun is_transform :: "gl_call \<Rightarrow> bool" where
  "is_transform (GlTranslatef x y z) = True"
| "is_transform (GlScalef x y z) = True"
| "is_transform (GlScaled x y z) = True"
| "is_transform c = False"

text \<open>The count and the index array of every \<open>glDrawElements\<close> call of a sequence.\<close>

fun draw_elements :: "gl_call list \<Rightarrow> (32 word \<times> 32 word list) list" where
  "draw_elements [] = []"
| "draw_elements (GlDrawElements m count t indices # cs) = (count, indices) # draw_elements cs"
| "draw_elements (c # cs) = draw_elements cs"

text \<open>A fresh OpenGL context: modelview mode, the identity matrix, nothing saved,
  polygons filled.\<close>

definition gl_initial :: gl_state where
  "gl_initial = \<lparr>matrix_mode = GL_MODELVIEW, modelview = (\<lambda>v. v), stack = [],
                  polygon_mode = GL_FILL\<rparr>"

text \<open>\<open>places_box m' m x0 y0 x1 y1\<close>: the matrix \<open>m'\<close> is \<open>m\<close> applied after the
  map that carries the box \<open>[-1/2, 1/2] \<times> [-1/2, 1/2]\<close> around the unit mesh onto the
  rectangle with the opposite corners \<open>(x0, y0)\<close> and \<open>(x1, y1)\<close>, leaving \<open>z\<close> as it
  is.\<close>

definition places_box ::
  "(PVector \<Rightarrow> PVector) \<Rightarrow> (PVector \<Rightarrow> PVector) \<Rightarrow> real \<Rightarrow> real \<Rightarrow> real \<Rightarrow> real \<Rightarrow> bool" where
  "places_box m' m x0 y0 x1 y1 \<longleftrightarrow>
     (\<forall>v. m' v = m (PVector (x0 + (x1 - x0) * (px v + 1 / 2))
                            (y0 + (y1 - y0) * (py v + 1 / 2)) (pz v)))"

subsection \<open>A start state for the examples\<close>

text \<open>Four distinct values for the mode constants, an opaque white fill and an opaque
  black stroke, and the variables as the program starts.\<close>

definition example_modes :: mode_constants where
  "example_modes = \<lparr>CENTER = 0, RADIUS = 1, CORNER = 2, CORNERS = 3\<rparr>"

definition example_state :: state where
  "example_state = init example_modes (255, 255, 255, 255) (0, 0, 0, 255)"

subsection \<open>Closed forms\<close>

text \<open>What the loops and the drawing functions compute, written without recursion.\<close>

definition ellipse_vertex :: "32 word \<Rightarrow> nat \<Rightarrow> PVector" where
  "ellipse_vertex n i =
     PVector (cos (2 * pi * real i / real (unat n)) / 2) (sin (2 * pi * real i / real (unat n)) / 2) 0"

definition phi_vertex :: "32 word \<Rightarrow> real \<Rightarrow> real \<Rightarrow> nat \<Rightarrow> PVector" where
  "phi_vertex ur sintheta costheta p =
     PVector (sin (PI / real_of_int (sint (ur - 1)) * real p) * costheta)
             (cos (PI / real_of_int (sint (ur - 1)) * real p))
             (sin (PI / real_of_int (sint (ur - 1)) * real p) * sintheta)"

definition sphere_vertex :: "32 word \<Rightarrow> 32 word \<Rightarrow> nat \<Rightarrow> nat \<Rightarrow> PVector" where
  "sphere_vertex ur vr t p =
     phi_vertex ur (sin (TWO_PI / real_of_int (sint (vr - 1)) * real t))
                   (cos (TWO_PI / real_of_int (sint (vr - 1)) * real t)) p"

definition row_indices :: "32 word \<Rightarrow> nat \<Rightarrow> nat \<Rightarrow> 32 word list" where
  "row_indices ur c r = [of_nat c * ur + of_nat r, (of_nat c + 1) * ur + of_nat r]"

definition sphere_vertices :: "32 word \<Rightarrow> 32 word \<Rightarrow> PVector list" where
  "sphere_vertices ur vr =
     concat (map (\<lambda>t. map (sphere_vertex ur vr t) [0..<nat (sint ur)]) [0..<nat (sint vr)])"

definition sphere_indices :: "32 word \<Rightarrow> 32 word \<Rightarrow> 32 word list" where
  "sphere_indices ur vr =
     concat (map (\<lambda>c. concat (map (row_indices ur c) [0..<nat (sint ur)]))
                 [0..<nat (sint (vr - 1))])"

definition sphere_fill :: "state \<Rightarrow> gl_call list" where
  "sphere_fill s =
     [GlColor4ubv (fillColor s), GlPolygonMode GL_FRONT_AND_BACK GL_FILL,
      GlEnable GL_POLYGON_OFFSET_FILL,
      GlDrawElements GL_QUAD_STRIP (ures s * (vres s - 1) * 2) GL_UNSIGNED_INT (sphereIdx s),
      GlDisable GL_POLYGON_OFFSET_FILL]"

definition sphere_stroke :: "state \<Rightarrow> gl_call list" where
  "sphere_stroke s =
     [GlPushAttrib GL_ENABLE_BIT, GlDisable GL_LIGHTING, GlColor4ubv (strokeColor s),
      GlPolygonMode GL_FRONT_AND_BACK GL_LINE,
      GlDrawElements GL_QUAD_STRIP (ures s * (vres s - 1) * 2) GL_UNSIGNED_INT (sphereIdx s),
      GlPopAttrib]"

definition sphere_calls :: "real \<Rightarrow> state \<Rightarrow> gl_call list" where
  "sphere_calls radius s =
     [GlPushMatrix, GlScaled radius radius radius, GlEnableClientState GL_VERTEX_ARRAY,
      GlVertexPointer 3 GL_DOUBLE 0 (VectorArray (sphereVtx s)),
      GlEnableClientState GL_NORMAL_ARRAY,
      GlNormalPointer GL_DOUBLE 0 (VectorArray (sphereVtx s))]
     @ (if 0 < rgba3 (fillColor s) then sphere_fill s else [])
     @ (if 0 < rgba3 (strokeColor s) then sphere_stroke s else [])
     @ [GlDisableClientState GL_VERTEX_ARRAY, GlDisableClientState GL_NORMAL_ARRAY, GlPopMatrix]"

definition ellipse_calls :: "real \<Rightarrow> real \<Rightarrow> real \<Rightarrow> real \<Rightarrow> state \<Rightarrow> gl_call list" where
  "ellipse_calls x y width height s =
     [GlMatrixMode GL_MODELVIEW, GlPushMatrix, GlTranslatef x y 0, GlScalef width height 1,
      GlTranslatef (1 / 2) (1 / 2) 0, GlEnableClientState GL_VERTEX_ARRAY,
      GlVertexPointer 3 GL_DOUBLE 0 (VectorArray (ellipseVtx s))]
     @ (if 0 < rgba3 (fillColor s)
        then [GlColor4ubv (fillColor s), GlPolygonMode GL_FRONT_AND_BACK GL_FILL,
              GlDrawArrays GL_POLYGON 0 (of_nat (length (ellipseVtx s)))]
        else [])
     @ (if 0 < rgba3 (strokeColor s)
        then [GlColor4ubv (strokeColor s),
              GlDrawArrays GL_LINE_LOOP 0 (of_nat (length (ellipseVtx s)))]
        else [])
     @ [GlDisableClientState GL_VERTEX_ARRAY, GlPopMatrix]"

definition quad_calls ::
  "real \<Rightarrow> real \<Rightarrow> real \<Rightarrow> real \<Rightarrow> real \<Rightarrow> real \<Rightarrow> real \<Rightarrow> real \<Rightarrow> state \<Rightarrow> gl_call list" where
  "quad_calls x0 y0 x1 y1 x2 y2 x3 y3 s =
     [GlEnableClientState GL_VERTEX_ARRAY,
      GlVertexPointer 2 GL_DOUBLE 0 (DoubleArray [x0, y0, x1, y1, x2, y2, x3, y3])]
     @ (if 0 < rgba3 (fillColor s)
        then [GlColor4ubv (fillColor s), GlPolygonMode GL_FRONT_AND_BACK GL_FILL,
              GlDrawArrays GL_QUADS 0 4]
        else [])
     @ (if 0 < rgba3 (strokeColor s)
        then [GlColor4ubv (strokeColor s), GlPolygonMode GL_FRONT_AND_BACK GL_LINE,
              GlDrawArrays GL_QUADS 0 4]
        else [])
     @ [GlDisableClientState GL_VERTEX_ARRAY]"

definition triangle_calls ::
  "real \<Rightarrow> real \<Rightarrow> real \<Rightarrow> real \<Rightarrow> real \<Rightarrow> real \<Rightarrow> real \<Rightarrow> real \<Rightarrow> real \<Rightarrow> state \<Rightarrow> gl_call list" where
  "triangle_calls x0 y0 z0 x1 y1 z1 x2 y2 z2 s =
     [GlEnableClientState GL_VERTEX_ARRAY,
      GlVertexPointer 3 GL_DOUBLE 0 (DoubleArray [x0, y0, z0, x1, y1, z1, x2, y2, z2])]
     @ (if 0 < rgba3 (fillColor s)
        then [GlColor4ubv (fillColor s), GlPolygonMode GL_FRONT_AND_BACK GL_FILL,
              GlDrawArrays GL_TRIANGLES 0 3]
        else [])
     @ (if 0 < rgba3 (strokeColor s)
        then [GlColor4ubv (strokeColor s), GlPolygonMode GL_FRONT_AND_BACK GL_LINE,
              GlDrawArrays GL_TRIANGLES 0 3]
        else [])
     @ [GlDisableClientState GL_VERTEX_ARRAY]"

section \<open>Lemmas\<close>

subsection \<open>The loops, without recursion\<close>

lemma ellipseDetail_loop_eq:
  "ellipseDetail_loop n i vtx =
     Inr (vtx @ map (ellipse_vertex n) [unat i..<unat n])"
proof (induction n i vtx rule: ellipseDetail_loop.induct)
  case (1 n i vtx)
  show ?case
  proof (cases "i < n")
    case True
    then have lt: "unat i < unat n"
      by (simp add: word_less_nat_alt)
    have "n \<noteq> 0"
      using True by auto
    then have nz: "(unsigned n :: real) \<noteq> 0"
      by (simp add: unsigned_eq_0_iff)
    have step: "[unat i..<unat n] = unat i # [unat (i + 1)..<unat n]"
      using lt by (simp add: upt_conv_Cons word_less_unat_Suc [OF True])
    have "ellipseDetail_loop n i vtx =
        ellipseDetail_loop n (i + 1) (vtx @ [ellipse_vertex n (unat i)])"
      using True nz
      by (subst ellipseDetail_loop.simps)
         (simp add: fdiv_def M_PI_def ellipse_vertex_def Let_def mult.commute)
    also have "\<dots> = Inr ((vtx @ [ellipse_vertex n (unat i)]) @ map (ellipse_vertex n) [unat (i + 1)..<unat n])"
      using True nz "1.IH" [of "M_PI * 2 * real (unat i) / real (unat n)"]
      by (simp add: fdiv_def M_PI_def ellipse_vertex_def Let_def mult.commute)
    finally show ?thesis
      by (simp add: step)
  next
    case False
    then have "unat n \<le> unat i"
      by (simp add: word_less_nat_alt)
    then show ?thesis
      using False by (subst ellipseDetail_loop.simps) simp
  qed
qed

lemma ellipseDetail_eq:
  "ellipseDetail n s = Inr (s\<lparr>ellipseVtx := map (ellipse_vertex n) [0..<unat n]\<rparr>)"
  by (simp add: ellipseDetail_def ellipseDetail_loop_eq)

lemma ellipse_vertex_norm:
  "sqrt ((px (ellipse_vertex n i))\<^sup>2 + (py (ellipse_vertex n i))\<^sup>2 + (pz (ellipse_vertex n i))\<^sup>2) = 1 / 2"
proof -
  define a where "a = 2 * pi * real i / real (unat n)"
  have "(cos a / 2)\<^sup>2 + (sin a / 2)\<^sup>2 = ((cos a)\<^sup>2 + (sin a)\<^sup>2) / 4"
    by (simp add: power_divide add_divide_distrib)
  also have "\<dots> = (1 / 2)\<^sup>2"
    by (simp add: power_divide)
  finally have "sqrt ((cos a / 2)\<^sup>2 + (sin a / 2)\<^sup>2) = 1 / 2"
    by (simp add: real_sqrt_divide)
  then show ?thesis
    by (simp add: ellipse_vertex_def a_def)
qed

lemma of_nat_nat_sint:
  fixes i :: "32 word"
  assumes "0 \<le> sint i"
  shows "of_nat (nat (sint i)) = i"
  using assms by (simp add: of_nat_nat)

lemma real_nat_sint:
  fixes i :: "32 word"
  assumes "0 \<le> sint i"
  shows "real (nat (sint i)) = signed i"
proof -
  have "real (nat (sint i)) = real_of_int (sint i)"
    using assms by simp
  then show ?thesis
    by simp
qed

lemma fdiv_sint_minus_1:
  fixes n :: "32 word"
  shows "fdiv a (signed (n - 1)) =
           (if n = 1 then Inl DivisionByZero else Inr (a / signed (n - 1)))"
proof -
  have "(signed (n - 1) :: real) = 0 \<longleftrightarrow> n = 1"
    by (simp add: signed_eq_0_iff)
  then show ?thesis
    by (simp add: fdiv_def)
qed

lemma sphereDetail_phi_eq:
  "0 \<le> sint i \<Longrightarrow>
   sphereDetail_phi ur st ct i vtx =
     (if i <s ur \<and> ur = 1 then Inl DivisionByZero
      else Inr (vtx @ map (phi_vertex ur st ct) [nat (sint i)..<nat (sint ur)]))"
proof (induction ur st ct i vtx rule: sphereDetail_phi.induct)
  case (1 ur st ct i vtx)
  show ?case
  proof (cases "i <s ur")
    case False
    then have "nat (sint ur) \<le> nat (sint i)"
      by (simp add: word_sless_alt)
    then show ?thesis
      using False by (subst sphereDetail_phi.simps) simp
  next
    case True
    show ?thesis
    proof (cases "ur = 1")
      case ur1: True
      then show ?thesis
        using True by (subst sphereDetail_phi.simps) (simp add: fdiv_def)
    next
      case False
      have lt: "sint i < sint ur"
        using True by (simp add: word_sless_alt)
      have suc: "sint (i + 1) = sint i + 1"
        using True by (rule sless_sint_Suc)
      have range: "[nat (sint i)..<nat (sint ur)] = nat (sint i) # [nat (sint (i + 1))..<nat (sint ur)]"
        using lt "1.prems" by (simp add: upt_conv_Cons suc nat_add_distrib)
      have "sphereDetail_phi ur st ct i vtx =
          sphereDetail_phi ur st ct (i + 1) (vtx @ [phi_vertex ur st ct (nat (sint i))])"
        using True False "1.prems"
        by (subst sphereDetail_phi.simps)
           (simp add: fdiv_sint_minus_1 phi_vertex_def Let_def real_nat_sint)
      also have "\<dots> = Inr ((vtx @ [phi_vertex ur st ct (nat (sint i))])
                         @ map (phi_vertex ur st ct) [nat (sint (i + 1))..<nat (sint ur)])"
        using True False "1.prems" suc
          "1.IH" [OF True, of "PI / signed (ur - 1)"]
        by (simp add: fdiv_sint_minus_1 phi_vertex_def Let_def real_nat_sint)
      finally show ?thesis
        using True False by (simp add: range)
    qed
  qed
qed

lemma sphereDetail_theta_eq:
  "0 \<le> sint i \<Longrightarrow>
   sphereDetail_theta ur vr i vtx =
     (if i <s vr \<and> (vr = 1 \<or> ur = 1) then Inl DivisionByZero
      else Inr (vtx @ concat (map (\<lambda>t. map (sphere_vertex ur vr t) [0..<nat (sint ur)])
                                [nat (sint i)..<nat (sint vr)])))"
proof (induction ur vr i vtx rule: sphereDetail_theta.induct)
  case (1 ur vr i vtx)
  show ?case
  proof (cases "i <s vr")
    case False
    then have "nat (sint vr) \<le> nat (sint i)"
      by (simp add: word_sless_alt)
    then show ?thesis
      using False by (subst sphereDetail_theta.simps) simp
  next
    case True
    have lt: "sint i < sint vr"
      using True by (simp add: word_sless_alt)
    have suc: "sint (i + 1) = sint i + 1"
      using True by (rule sless_sint_Suc)
    have range: "[nat (sint i)..<nat (sint vr)] = nat (sint i) # [nat (sint (i + 1))..<nat (sint vr)]"
      using lt "1.prems" by (simp add: upt_conv_Cons suc nat_add_distrib)
    show ?thesis
    proof (cases "vr = 1 \<or> ur = 1")
      case bad: True
      show ?thesis
      proof (cases "vr = 1")
        case True
        then show ?thesis
          using \<open>i <s vr\<close> by (subst sphereDetail_theta.simps) (simp add: fdiv_def)
      next
        case False
        then have "ur = 1"
          using bad by simp
        then show ?thesis
          using \<open>i <s vr\<close> False
          by (subst sphereDetail_theta.simps)
             (simp add: fdiv_sint_minus_1 sphereDetail_phi_eq Let_def word_sless_alt)
      qed
    next
      case False
      let ?q = "TWO_PI / real_of_int (sint (vr - 1))"
      let ?theta = "?q * real_of_int (sint i)"
      let ?row = "map (sphere_vertex ur vr (nat (sint i))) [0..<nat (sint ur)]"
      have phi: "sphereDetail_phi ur (sin ?theta) (cos ?theta) 0 vtx = Inr (vtx @ ?row)"
        using False "1.prems" by (simp add: sphereDetail_phi_eq sphere_vertex_def real_nat_sint)
      have "sphereDetail_theta ur vr i vtx = sphereDetail_theta ur vr (i + 1) (vtx @ ?row)"
        using True False phi
        by (subst sphereDetail_theta.simps) (simp add: fdiv_sint_minus_1 Let_def)
      also have "\<dots> = Inr ((vtx @ ?row)
                  @ concat (map (\<lambda>t. map (sphere_vertex ur vr t) [0..<nat (sint ur)])
                                [nat (sint (i + 1))..<nat (sint vr)]))"
        using False "1.prems" suc
          "1.IH" [OF True _ refl refl refl phi]
        by (simp add: fdiv_sint_minus_1)
      finally show ?thesis
        using True False by (simp add: range)
    qed
  qed
qed

lemma sphereDetail_row_eq:
  "0 \<le> sint i \<Longrightarrow>
   sphereDetail_row ur (of_nat c) i idx =
     idx @ concat (map (row_indices ur c) [nat (sint i)..<nat (sint ur)])"
proof (induction ur "of_nat c :: 32 word" i idx rule: sphereDetail_row.induct)
  case (1 ur i idx)
  show ?case
  proof (cases "i <s ur")
    case False
    then have "nat (sint ur) \<le> nat (sint i)"
      by (simp add: word_sless_alt)
    then show ?thesis
      using False by (subst sphereDetail_row.simps) simp
  next
    case True
    have lt: "sint i < sint ur"
      using True by (simp add: word_sless_alt)
    have suc: "sint (i + 1) = sint i + 1"
      using True by (rule sless_sint_Suc)
    have range: "[nat (sint i)..<nat (sint ur)] = nat (sint i) # [nat (sint (i + 1))..<nat (sint ur)]"
      using lt "1.prems" by (simp add: upt_conv_Cons suc nat_add_distrib)
    have "sphereDetail_row ur (of_nat c) i idx =
        sphereDetail_row ur (of_nat c) (i + 1) (idx @ row_indices ur c (nat (sint i)))"
      using True "1.prems"
      by (subst sphereDetail_row.simps) (simp add: row_indices_def of_nat_nat_sint)
    also have "\<dots> = (idx @ row_indices ur c (nat (sint i)))
                  @ concat (map (row_indices ur c) [nat (sint (i + 1))..<nat (sint ur)])"
      using "1.prems" suc "1.hyps" [OF True]
      by (simp add: row_indices_def of_nat_nat_sint)
    finally show ?thesis
      by (simp add: range)
  qed
qed

lemma sphereDetail_col_eq:
  "0 \<le> sint i \<Longrightarrow>
   sphereDetail_col ur vr i idx =
     idx @ concat (map (\<lambda>c. concat (map (row_indices ur c) [0..<nat (sint ur)]))
                       [nat (sint i)..<nat (sint (vr - 1))])"
proof (induction ur vr i idx rule: sphereDetail_col.induct)
  case (1 ur vr i idx)
  show ?case
  proof (cases "i <s vr - 1")
    case False
    then have "nat (sint (vr - 1)) \<le> nat (sint i)"
      by (simp add: word_sless_alt)
    then show ?thesis
      using False by (subst sphereDetail_col.simps) simp
  next
    case True
    have lt: "sint i < sint (vr - 1)"
      using True by (simp add: word_sless_alt)
    have suc: "sint (i + 1) = sint i + 1"
      using True by (rule sless_sint_Suc)
    have range: "[nat (sint i)..<nat (sint (vr - 1))] =
        nat (sint i) # [nat (sint (i + 1))..<nat (sint (vr - 1))]"
      using lt "1.prems" by (simp add: upt_conv_Cons suc nat_add_distrib)
    let ?row = "concat (map (row_indices ur (nat (sint i))) [0..<nat (sint ur)])"
    have row: "sphereDetail_row ur i 0 idx = idx @ ?row"
      using sphereDetail_row_eq [of 0 ur "nat (sint i)" idx] "1.prems"
      by (simp add: of_nat_nat_sint)
    have "sphereDetail_col ur vr i idx = sphereDetail_col ur vr (i + 1) (idx @ ?row)"
      using True row by (subst sphereDetail_col.simps) simp
    also have "\<dots> = (idx @ ?row)
                  @ concat (map (\<lambda>c. concat (map (row_indices ur c) [0..<nat (sint ur)]))
                                [nat (sint (i + 1))..<nat (sint (vr - 1))])"
      using "1.prems" suc "1.IH" [OF True] row
      by simp
    finally show ?thesis
      by (simp add: range)
  qed
qed

lemma sphereDetail_eq:
  "sphereDetail ur vr s =
     (if 0 <s vr \<and> (vr = 1 \<or> ur = 1) then Inl DivisionByZero
      else Inr (s\<lparr>ures := ur, vres := vr, sphereVtx := sphere_vertices ur vr,
                  sphereIdx := sphere_indices ur vr\<rparr>))"
  by (simp add: sphereDetail_def sphereDetail_theta_eq sphereDetail_col_eq
      sphere_vertices_def sphere_indices_def Let_def)

subsection \<open>Sizes and entries of the sphere mesh\<close>

lemma length_concat_rows:
  "length (concat (map (\<lambda>t. map (f t) [0..<m]) [0..<n])) = n * m"
  by (induction n) simp_all

lemma nth_concat_rows:
  assumes "t < n" "p < m"
  shows "concat (map (\<lambda>t. map (f t) [0..<m]) [0..<n]) ! (t * m + p) = f t p"
  using assms
proof (induction n)
  case 0
  then show ?case by simp
next
  case (Suc n)
  show ?case
  proof (cases "t < n")
    case True
    then have "Suc t \<le> n"
      by simp
    then have "Suc t * m \<le> n * m"
      by (rule mult_le_mono1)
    then have "t * m + p < n * m"
      using Suc.prems(2) by simp
    then show ?thesis
      using Suc.IH [OF True Suc.prems(2)]
      by (simp add: nth_append length_concat_rows)
  next
    case False
    then have "t = n"
      using Suc.prems(1) by simp
    then show ?thesis
      using Suc.prems(2) by (simp add: nth_append length_concat_rows)
  qed
qed

lemma length_sphere_vertices:
  "length (sphere_vertices ur vr) = nat (sint ur) * nat (sint vr)"
  by (simp add: sphere_vertices_def length_concat_rows mult.commute)

lemma length_row:
  "length (concat (map (row_indices ur c) [0..<m])) = m * 2"
  by (induction m) (simp_all add: row_indices_def)

lemma length_sphere_indices:
  "length (sphere_indices ur vr) = nat (sint ur) * nat (sint (vr - 1)) * 2"
proof -
  have "length (concat (map (\<lambda>c. concat (map (row_indices ur c) [0..<m])) [0..<n])) = n * (m * 2)"
    for m n
    by (induction n) (simp_all add: length_row)
  then show ?thesis
    by (simp add: sphere_indices_def)
qed

lemma sint_minus_1:
  fixes n :: "32 word"
  assumes "1 \<le> sint n"
  shows "sint (n - 1) = sint n - 1"
proof -
  have "sint n < 2 ^ 31"
    using sint_lt [of n] by simp
  then have "signed_take_bit 31 (sint n - 1) = sint n - 1"
    using assms by (intro signed_take_bit_int_eq_self) linarith+
  then show ?thesis
    by (simp add: sint_word_ariths)
qed

lemma sphere_vertex_norm:
  "(px (sphere_vertex ur vr t p))\<^sup>2 + (py (sphere_vertex ur vr t p))\<^sup>2
     + (pz (sphere_vertex ur vr t p))\<^sup>2 = 1"
proof -
  have "(sin a * cos b)\<^sup>2 + (cos a)\<^sup>2 + (sin a * sin b)\<^sup>2 = 1" for a b :: real
  proof -
    have "(sin a * cos b)\<^sup>2 + (sin a * sin b)\<^sup>2 = (sin a)\<^sup>2 * ((cos b)\<^sup>2 + (sin b)\<^sup>2)"
      by (simp only: power_mult_distrib distrib_left)
    also have "\<dots> = (sin a)\<^sup>2"
      by simp
    finally have h: "(sin a * cos b)\<^sup>2 + (sin a * sin b)\<^sup>2 = (sin a)\<^sup>2" .
    have "(sin a * cos b)\<^sup>2 + (cos a)\<^sup>2 + (sin a * sin b)\<^sup>2 =
        ((sin a * cos b)\<^sup>2 + (sin a * sin b)\<^sup>2) + (cos a)\<^sup>2"
      by (simp only: ac_simps)
    also have "\<dots> = (sin a)\<^sup>2 + (cos a)\<^sup>2"
      by (simp only: h)
    also have "\<dots> = 1"
      by (rule sin_cos_squared_add)
    finally show ?thesis .
  qed
  then show ?thesis
    by (simp add: sphere_vertex_def phi_vertex_def)
qed

lemma set_sphere_vertices:
  "v \<in> set (sphere_vertices ur vr) \<Longrightarrow> \<exists>t p. v = sphere_vertex ur vr t p"
  by (auto simp: sphere_vertices_def)

lemma set_sphere_indices:
  assumes "i \<in> set (sphere_indices ur vr)"
  shows "\<exists>c r. c \<le> nat (sint (vr - 1)) \<and> r < nat (sint ur) \<and> i = of_nat c * ur + of_nat r"
proof -
  from assms obtain c r where c: "c < nat (sint (vr - 1))" and r: "r < nat (sint ur)"
    and i: "i \<in> set (row_indices ur c r)"
    by (auto simp: sphere_indices_def)
  have "(of_nat c + 1 :: 32 word) = of_nat (Suc c)"
    by simp
  with i have "i = of_nat c * ur + of_nat r \<or> i = of_nat (Suc c) * ur + of_nat r"
    unfolding row_indices_def by (simp only: set_simps insert_iff empty_iff) blast
  then show ?thesis
  proof
    assume "i = of_nat c * ur + of_nat r"
    then show ?thesis
      using c r by (intro exI [of _ c] exI [of _ r]) simp
  next
    assume "i = of_nat (Suc c) * ur + of_nat r"
    then show ?thesis
      using c r by (intro exI [of _ "Suc c"] exI [of _ r]) simp
  qed
qed

lemma unat_index_le:
  fixes ur :: "32 word"
  assumes "0 \<le> sint ur"
  shows "unat (of_nat c * ur + of_nat r :: 32 word) \<le> c * nat (sint ur) + r"
proof -
  define U where "U = nat (sint ur)"
  have le: "unat (of_nat n :: 32 word) \<le> n" for n
    by (simp add: unat_of_nat)
  have ur: "of_nat U = ur"
    using assms by (simp add: U_def of_nat_nat_sint)
  have "(of_nat (c * U + r) :: 32 word) = of_nat c * of_nat U + of_nat r"
    by simp
  also have "\<dots> = of_nat c * ur + of_nat r"
    by (simp only: ur)
  finally have "unat (of_nat c * ur + of_nat r :: 32 word) = unat (of_nat (c * U + r) :: 32 word)"
    by simp
  also have "\<dots> \<le> c * U + r"
    by (rule le)
  finally show ?thesis
    by (simp add: U_def)
qed

subsection \<open>The calls a drawing function issues\<close>

lemma at0_eq: "at0 xs = (if xs = [] then Inl OutOfRange else Inr (hd xs))"
  by (cases xs) (simp_all add: at0_def)

lemma issued_emit [simp]: "issued s (emit cs s) = cs"
  by (simp add: issued_def emit_def)

lemma sphere_eq:
  "sphere radius s =
     (if sphereVtx s = []
         \<or> (sphereIdx s = [] \<and> (0 < rgba3 (fillColor s) \<or> 0 < rgba3 (strokeColor s)))
      then Inl OutOfRange
      else Inr (emit (sphere_calls radius s) s))"
  by (simp add: sphere_def emit_def at0_eq Let_def sphere_calls_def sphere_fill_def
      sphere_stroke_def)

lemma draw_elements_sphere_calls:
  "\<forall>d \<in> set (draw_elements (sphere_calls radius s)).
      d = (ures s * (vres s - 1) * 2, sphereIdx s)"
  by (simp add: sphere_calls_def sphere_fill_def sphere_stroke_def)

lemma sle_2_sint:
  fixes n :: "32 word"
  shows "2 \<le>s n \<longleftrightarrow> 2 \<le> sint n"
  by (simp add: word_sle_eq)

lemma sphereDetail_ok:
  assumes "2 \<le>s ur" "2 \<le>s vr"
  shows "sphereDetail ur vr s =
           Inr (s\<lparr>ures := ur, vres := vr, sphereVtx := sphere_vertices ur vr,
                  sphereIdx := sphere_indices ur vr\<rparr>)"
proof -
  have "ur \<noteq> 1" "vr \<noteq> 1"
    using assms by (auto simp: word_sle_eq)
  then show ?thesis
    by (simp add: sphereDetail_eq)
qed

lemma sphere_vertex_formula:
  assumes "2 \<le>s ur" "2 \<le>s vr"
  shows "sphere_vertex ur vr t p =
           PVector (sin (pi / real_of_int (sint ur - 1) * real p)
                      * cos (2 * pi / real_of_int (sint vr - 1) * real t))
                   (cos (pi / real_of_int (sint ur - 1) * real p))
                   (sin (pi / real_of_int (sint ur - 1) * real p)
                      * sin (2 * pi / real_of_int (sint vr - 1) * real t))"
proof -
  have "sint (ur - 1) = sint ur - 1" "sint (vr - 1) = sint vr - 1"
    using assms by (simp_all add: sle_2_sint sint_minus_1)
  then have "(signed (ur - 1) :: real) = real_of_int (sint ur - 1)"
    "(signed (vr - 1) :: real) = real_of_int (sint vr - 1)"
    by (metis of_int_sint)+
  then show ?thesis
    by (simp add: sphere_vertex_def phi_vertex_def PI_def TWO_PI_def)
qed

lemma sphere_index_bound:
  assumes "2 \<le>s ur" "2 \<le>s vr" "i \<in> set (sphere_indices ur vr)"
  shows "unat i < nat (sint ur) * nat (sint vr)"
proof -
  have ur: "2 \<le> sint ur" and vr: "2 \<le> sint vr"
    using assms by (simp_all add: sle_2_sint)
  have vr1: "nat (sint (vr - 1)) = nat (sint vr) - 1"
    using vr by (simp add: sint_minus_1 nat_diff_distrib)
  obtain c r where c: "c \<le> nat (sint (vr - 1))" and r: "r < nat (sint ur)"
    and i: "i = of_nat c * ur + of_nat r"
    using set_sphere_indices [OF assms(3)] by blast
  have "unat i \<le> c * nat (sint ur) + r"
    using ur by (simp add: i unat_index_le)
  also have "\<dots> < Suc c * nat (sint ur)"
    using r by simp
  also have "\<dots> \<le> nat (sint vr) * nat (sint ur)"
  proof (rule mult_le_mono1)
    show "Suc c \<le> nat (sint vr)"
      using c vr vr1 by linarith
  qed
  finally show ?thesis
    by (simp add: mult.commute)
qed

lemma ellipse_eq:
  "ellipse k x0 y0 width0 height0 s =
     (if ellipseVtx s = [] then Inl OutOfRange
      else case ellipse_switch k (g_ellipseMode s) x0 y0 width0 height0 of
             (x, y, width, height) \<Rightarrow> Inr (emit (ellipse_calls x y width height s) s))"
  by (simp add: ellipse_def emit_def at0_eq Let_def ellipse_calls_def split: prod.splits)

lemma quad_eq:
  "quad x0 y0 x1 y1 x2 y2 x3 y3 s = emit (quad_calls x0 y0 x1 y1 x2 y2 x3 y3 s) s"
  by (simp add: quad_def emit_def Let_def quad_calls_def)

lemma emit_fields [simp]:
  "g_ellipseMode (emit cs s) = g_ellipseMode s"
  "ellipseVtx (emit cs s) = ellipseVtx s"
  "ures (emit cs s) = ures s"
  "vres (emit cs s) = vres s"
  "sphereVtx (emit cs s) = sphereVtx s"
  "sphereIdx (emit cs s) = sphereIdx s"
  "fillColor (emit cs s) = fillColor s"
  "strokeColor (emit cs s) = strokeColor s"
  "gl (emit cs s) = gl s @ cs"
  by (simp_all add: emit_def)

lemma ellipse_draws:
  assumes "d \<in> set (gl_draws (ellipse_calls x y width height s) g)"
  shows "places_box (modelview (snd d)) (modelview g) x y (x + width) (y + height)"
  using assms
  by (auto simp: ellipse_calls_def places_box_def mult_matrix_def translate_def scale_def
      algebra_simps split: if_splits)

lemma ellipse_draws_nonempty:
  assumes "0 < rgba3 (fillColor s) \<or> 0 < rgba3 (strokeColor s)"
  shows "gl_draws (ellipse_calls x y width height s) g \<noteq> []"
  using assms by (auto simp: ellipse_calls_def)

lemma places_box_corners:
  assumes "places_box m' m x0 y0 x1 y1"
  shows "m' (PVector (- 1 / 2) (- 1 / 2) c) = m (PVector x0 y0 c)"
    and "m' (PVector (1 / 2) (1 / 2) c) = m (PVector x1 y1 c)"
    and "m' (PVector 0 0 c) = m (PVector ((x0 + x1) / 2) ((y0 + y1) / 2) c)"
  using assms by (simp_all add: places_box_def algebra_simps add_divide_distrib diff_divide_distrib)

lemma example_mesh:
  "ellipseDetail 4 example_state =
     Inr (example_state\<lparr>ellipseVtx := map (ellipse_vertex 4) [0..<unat (4 :: 32 word)]\<rparr>)"
  by (rule ellipseDetail_eq)

subsection \<open>What a sequence of calls preserves\<close>

lemma run_mode:
  assumes "run k c s = Inr s'" "\<not> is_EllipseMode c"
  shows "g_ellipseMode s' = g_ellipseMode s"
  using assms
  by (cases c)
     (auto simp: line_def triangle_def quad_def point_def Let_def ellipseDetail_eq ellipse_eq
        sphereDetail_eq sphere_eq split: if_splits prod.splits)

lemma step_mode:
  assumes "step k c s s'" "\<not> is_EllipseMode c"
  shows "g_ellipseMode s' = g_ellipseMode s"
  using assms
proof (cases rule: step.cases)
  case returns
  then show ?thesis
    using assms(2) by (simp add: run_mode)
next
  case (carries_on ur vr vtx)
  then show ?thesis
    by simp
qed

lemma steps_mode:
  assumes "steps k cs s s'" "\<forall>c \<in> set cs. \<not> is_EllipseMode c"
  shows "g_ellipseMode s' = g_ellipseMode s"
  using assms
proof (induction rule: steps.induct)
  case (no_call s)
  then show ?case by simp
next
  case (next_call c s s' cs s'')
  have "g_ellipseMode s' = g_ellipseMode s"
    using next_call.hyps(1) next_call.prems by (simp add: step_mode)
  moreover have "g_ellipseMode s'' = g_ellipseMode s'"
    using next_call.IH next_call.prems by simp
  ultimately show ?case
    by simp
qed

lemma ellipse_transforms:
  assumes "ellipse k x y width height s = Inr s'"
  shows "filter is_transform (issued s s') =
           (case ellipse_switch k (g_ellipseMode s) x y width height of
              (x', y', width', height') \<Rightarrow>
                [GlTranslatef x' y' 0, GlScalef width' height' 1, GlTranslatef (1 / 2) (1 / 2) 0])"
  using assms
  by (auto simp: ellipse_eq ellipse_calls_def split: if_splits prod.splits)

lemma sphereDetail_indices_nonempty:
  assumes "sphereDetail ur vr s = Inr s'" "sphereVtx s' \<noteq> []"
  shows "sphereIdx s' \<noteq> []"
proof -
  have ok: "\<not> (0 <s vr \<and> (vr = 1 \<or> ur = 1))"
    and s': "s' = s\<lparr>ures := ur, vres := vr, sphereVtx := sphere_vertices ur vr,
                     sphereIdx := sphere_indices ur vr\<rparr>"
    using assms(1) by (auto simp: sphereDetail_eq split: if_splits)
  have "length (sphere_vertices ur vr) \<noteq> 0"
    using assms(2) s' by simp
  then have pos: "0 < sint ur" "0 < sint vr"
    by (simp_all add: length_sphere_vertices)
  then have "ur \<noteq> 1" "vr \<noteq> 1"
    using ok by (auto simp: word_sless_alt)
  moreover have "w = 1" if "sint w = 1" for w :: "32 word"
    using that signed_word_eqI [of w 1] by simp
  ultimately have "sint ur \<noteq> 1" "sint vr \<noteq> 1"
    by blast+
  then have two: "2 \<le> sint ur" "2 \<le> sint vr"
    using pos by linarith+
  then have "sint (vr - 1) = sint vr - 1"
    by (simp add: sint_minus_1)
  then have "length (sphere_indices ur vr) \<noteq> 0"
    using two by (simp add: length_sphere_indices)
  then show ?thesis
    using s' by simp
qed

lemma run_sphere_inv:
  assumes "run k c s = Inr s'" "sphereVtx s \<noteq> [] \<longrightarrow> sphereIdx s \<noteq> []"
  shows "sphereVtx s' \<noteq> [] \<longrightarrow> sphereIdx s' \<noteq> []"
proof (cases c)
  case (SphereDetail ur vr)
  then show ?thesis
    using assms(1) sphereDetail_indices_nonempty by auto
qed (use assms in \<open>auto simp: line_def triangle_def quad_def point_def Let_def ellipseDetail_eq
      ellipse_eq ellipseMode_def sphere_eq split: if_splits prod.splits\<close>)

lemma step_sphere_inv:
  assumes "step k c s s'" "\<forall>t. run k c t \<noteq> Inl DivisionByZero"
    and "sphereVtx s \<noteq> [] \<longrightarrow> sphereIdx s \<noteq> []"
  shows "sphereVtx s' \<noteq> [] \<longrightarrow> sphereIdx s' \<noteq> []"
  using assms(1)
proof (cases rule: step.cases)
  case returns
  then show ?thesis
    using assms(3) by (rule run_sphere_inv)
next
  case (carries_on ur vr vtx)
  then have "run k c s = Inl DivisionByZero"
    by simp
  then show ?thesis
    using assms(2) by simp
qed

lemma steps_sphere_inv:
  assumes "steps k cs s s'" "\<forall>c \<in> set cs. \<forall>t. run k c t \<noteq> Inl DivisionByZero"
    and "sphereVtx s \<noteq> [] \<longrightarrow> sphereIdx s \<noteq> []"
  shows "sphereVtx s' \<noteq> [] \<longrightarrow> sphereIdx s' \<noteq> []"
  using assms
proof (induction rule: steps.induct)
  case (no_call s)
  then show ?case by simp
next
  case (next_call c s s' cs s'')
  have "sphereVtx s' \<noteq> [] \<longrightarrow> sphereIdx s' \<noteq> []"
    using next_call.hyps(1) next_call.prems by (intro step_sphere_inv [of k c s s']) simp_all
  then show ?case
    using next_call.IH next_call.prems by simp
qed

lemma triangle_eq:
  "triangle x0 y0 z0 x1 y1 z1 x2 y2 z2 s = emit (triangle_calls x0 y0 z0 x1 y1 z1 x2 y2 z2 s) s"
  by (simp add: triangle_def emit_def Let_def triangle_calls_def)

subsection \<open>Fill and outline passes\<close>

lemmas pass_defs =
  fill_passes_def fill_pass_def outline_passes_def outline_pass_def polygon_primitive_def

lemma quad_calls_passes:
  "fill_passes (quad_calls x0 y0 x1 y1 x2 y2 x3 y3 s) g = (if 0 < rgba3 (fillColor s) then 1 else 0)"
  "outline_passes (quad_calls x0 y0 x1 y1 x2 y2 x3 y3 s) g =
     (if 0 < rgba3 (strokeColor s) then 1 else 0)"
  by (simp_all add: quad_calls_def pass_defs)

lemma triangle_calls_passes:
  "fill_passes (triangle_calls x0 y0 z0 x1 y1 z1 x2 y2 z2 s) g =
     (if 0 < rgba3 (fillColor s) then 1 else 0)"
  "outline_passes (triangle_calls x0 y0 z0 x1 y1 z1 x2 y2 z2 s) g =
     (if 0 < rgba3 (strokeColor s) then 1 else 0)"
  by (simp_all add: triangle_calls_def pass_defs)

lemma ellipse_calls_passes:
  "fill_passes (ellipse_calls x y width height s) g = (if 0 < rgba3 (fillColor s) then 1 else 0)"
  "outline_passes (ellipse_calls x y width height s) g =
     (if 0 < rgba3 (strokeColor s) then 1 else 0)"
  by (simp_all add: ellipse_calls_def pass_defs)

lemma sphere_calls_passes:
  "fill_passes (sphere_calls radius s) g = (if 0 < rgba3 (fillColor s) then 1 else 0)"
  "outline_passes (sphere_calls radius s) g = (if 0 < rgba3 (strokeColor s) then 1 else 0)"
  by (simp_all add: sphere_calls_def sphere_fill_def sphere_stroke_def pass_defs)

lemma word_pos_iff:
  fixes a :: "8 word"
  shows "0 < a \<longleftrightarrow> a \<noteq> 0"
  by (simp add: word_neq_0_conv)

section \<open>Properties\<close>

text \<open>
  Claim C1. \<open>ellipseDetail(n)\<close> returns, and replaces the ellipse mesh by exactly \<open>n\<close>
  vertices; vertex \<open>i\<close> is \<open>(cos a / 2, sin a / 2, 0)\<close> for the angle \<open>a = 2 pi i / n\<close>,
  so it lies at distance \<open>1 / 2\<close> from the origin in the plane \<open>z = 0\<close>. The new mesh
  is the same from whatever state the call starts, and no other variable changes. This holds
  for every \<open>n\<close>, in particular for \<open>n \<ge> 3\<close>.
\<close>

theorem ellipseDetail_mesh:
  "\<exists>s'. ellipseDetail n s = Inr s'
           \<and> length (ellipseVtx s') = unat n
           \<and> (\<forall>i < unat n.
                 ellipseVtx s' ! i =
                   PVector (cos (2 * pi * real i / real (unat n)) / 2)
                           (sin (2 * pi * real i / real (unat n)) / 2) 0
                 \<and> sqrt ((px (ellipseVtx s' ! i))\<^sup>2 + (py (ellipseVtx s' ! i))\<^sup>2
                         + (pz (ellipseVtx s' ! i))\<^sup>2) = 1 / 2
                 \<and> pz (ellipseVtx s' ! i) = 0)
           \<and> (\<forall>t. \<exists>t'. ellipseDetail n t = Inr t' \<and> ellipseVtx t' = ellipseVtx s')
           \<and> s' = s\<lparr>ellipseVtx := ellipseVtx s'\<rparr>"
proof -
  let ?s' = "s\<lparr>ellipseVtx := map (ellipse_vertex n) [0..<unat n]\<rparr>"
  have "ellipseDetail n s = Inr ?s'"
    by (rule ellipseDetail_eq)
  moreover have "length (ellipseVtx ?s') = unat n"
    by simp
  moreover have "\<forall>i < unat n.
       ellipseVtx ?s' ! i =
         PVector (cos (2 * pi * real i / real (unat n)) / 2)
                 (sin (2 * pi * real i / real (unat n)) / 2) 0
       \<and> sqrt ((px (ellipseVtx ?s' ! i))\<^sup>2 + (py (ellipseVtx ?s' ! i))\<^sup>2
               + (pz (ellipseVtx ?s' ! i))\<^sup>2) = 1 / 2
       \<and> pz (ellipseVtx ?s' ! i) = 0"
    using ellipse_vertex_norm [of n] by (simp add: ellipse_vertex_def)
  moreover have "\<forall>t. \<exists>t'. ellipseDetail n t = Inr t' \<and> ellipseVtx t' = ellipseVtx ?s'"
    by (simp add: ellipseDetail_eq)
  moreover have "?s' = s\<lparr>ellipseVtx := ellipseVtx ?s'\<rparr>"
    by simp
  ultimately show ?thesis
    by blast
qed

theorem ellipseDetail_mesh_witness:
  "(\<exists>s'. ellipseDetail 4 example_state = Inr s'
         \<and> length (ellipseVtx s') = 4
         \<and> ellipseVtx s' ! 0 = PVector (1 / 2) 0 0)"
  using ellipseDetail_mesh [of 4 example_state]
  by auto

text \<open>
  Claim C2. For \<open>ures \<ge> 2\<close> and \<open>vres \<ge> 2\<close>, \<open>sphereDetail(ures, vres)\<close> returns with
  \<open>ures * vres\<close> vertices. Vertex \<open>t * ures + p\<close> is
  \<open>(sin phi * cos theta, cos phi, sin phi * sin theta)\<close> with
  \<open>theta = 2 pi / (vres - 1) * t\<close> and \<open>phi = pi / (ures - 1) * p\<close>, and every vertex is at
  distance 1 from the origin. The index array has \<open>ures * (vres - 1) * 2\<close> entries, each
  below \<open>ures * vres\<close>. Both arrays depend on \<open>(ures, vres)\<close> only, and repeating the
  call on its own result changes nothing. The products are products of integers, not of
  machine words.
\<close>

theorem sphereDetail_mesh:
  assumes "2 \<le>s ur" and "2 \<le>s vr"
  shows "\<exists>s'. sphereDetail ur vr s = Inr s'
           \<and> int (length (sphereVtx s')) = sint ur * sint vr
           \<and> (\<forall>t < nat (sint vr). \<forall>p < nat (sint ur).
                 sphereVtx s' ! (t * nat (sint ur) + p) =
                   PVector (sin (pi / real_of_int (sint ur - 1) * real p)
                              * cos (2 * pi / real_of_int (sint vr - 1) * real t))
                           (cos (pi / real_of_int (sint ur - 1) * real p))
                           (sin (pi / real_of_int (sint ur - 1) * real p)
                              * sin (2 * pi / real_of_int (sint vr - 1) * real t)))
           \<and> (\<forall>v \<in> set (sphereVtx s'). sqrt ((px v)\<^sup>2 + (py v)\<^sup>2 + (pz v)\<^sup>2) = 1)
           \<and> int (length (sphereIdx s')) = sint ur * (sint vr - 1) * 2
           \<and> (\<forall>i \<in> set (sphereIdx s'). uint i < sint ur * sint vr)
           \<and> (\<forall>t. \<exists>t'. sphereDetail ur vr t = Inr t'
                  \<and> sphereVtx t' = sphereVtx s' \<and> sphereIdx t' = sphereIdx s')
           \<and> sphereDetail ur vr s' = Inr s'"
proof -
  let ?s' = "s\<lparr>ures := ur, vres := vr, sphereVtx := sphere_vertices ur vr,
                sphereIdx := sphere_indices ur vr\<rparr>"
  have ur: "2 \<le> sint ur" and vr: "2 \<le> sint vr"
    using assms by (simp_all add: sle_2_sint)
  have run: "sphereDetail ur vr t =
      Inr (t\<lparr>ures := ur, vres := vr, sphereVtx := sphere_vertices ur vr,
             sphereIdx := sphere_indices ur vr\<rparr>)" for t
    using assms by (rule sphereDetail_ok)
  have prod: "int (nat (sint ur) * nat (sint vr)) = sint ur * sint vr"
    using ur vr by simp
  have len_vtx: "int (length (sphereVtx ?s')) = sint ur * sint vr"
    using prod by (simp add: length_sphere_vertices)
  have nth: "\<forall>t < nat (sint vr). \<forall>p < nat (sint ur).
      sphereVtx ?s' ! (t * nat (sint ur) + p) =
        PVector (sin (pi / real_of_int (sint ur - 1) * real p)
                   * cos (2 * pi / real_of_int (sint vr - 1) * real t))
                (cos (pi / real_of_int (sint ur - 1) * real p))
                (sin (pi / real_of_int (sint ur - 1) * real p)
                   * sin (2 * pi / real_of_int (sint vr - 1) * real t))"
    using sphere_vertex_formula [OF assms]
    by (simp add: sphere_vertices_def nth_concat_rows)
  have norm: "\<forall>v \<in> set (sphereVtx ?s'). sqrt ((px v)\<^sup>2 + (py v)\<^sup>2 + (pz v)\<^sup>2) = 1"
  proof
    fix v
    assume "v \<in> set (sphereVtx ?s')"
    then obtain t p where "v = sphere_vertex ur vr t p"
      using set_sphere_vertices [of v ur vr] by auto
    then show "sqrt ((px v)\<^sup>2 + (py v)\<^sup>2 + (pz v)\<^sup>2) = 1"
      by (simp add: sphere_vertex_norm)
  qed
  have "int (nat (sint ur) * nat (sint (vr - 1)) * 2) = sint ur * (sint vr - 1) * 2"
    using ur vr by (simp add: sint_minus_1)
  then have len_idx: "int (length (sphereIdx ?s')) = sint ur * (sint vr - 1) * 2"
    by (simp add: length_sphere_indices)
  have idx: "\<forall>i \<in> set (sphereIdx ?s'). uint i < sint ur * sint vr"
  proof
    fix i
    assume "i \<in> set (sphereIdx ?s')"
    then have "unat i < nat (sint ur) * nat (sint vr)"
      using sphere_index_bound [OF assms] by simp
    then have "int (unat i) < int (nat (sint ur) * nat (sint vr))"
      by (simp only: of_nat_less_iff)
    then show "uint i < sint ur * sint vr"
      by (simp only: prod) simp
  qed
  have pure: "\<forall>t. \<exists>t'. sphereDetail ur vr t = Inr t'
      \<and> sphereVtx t' = sphereVtx ?s' \<and> sphereIdx t' = sphereIdx ?s'"
    by (simp add: run)
  have again: "sphereDetail ur vr ?s' = Inr ?s'"
    by (simp add: run)
  show ?thesis
    using run [of s] len_vtx nth norm len_idx idx pure again by blast
qed

theorem sphereDetail_mesh_witness:
  "2 \<le>s (2 :: 32 word) \<and> 2 \<le>s (3 :: 32 word)
   \<and> (\<exists>s'. sphereDetail 2 3 example_state = Inr s'
          \<and> int (length (sphereVtx s')) = 6
          \<and> int (length (sphereIdx s')) = 8
          \<and> (\<forall>i \<in> set (sphereIdx s'). uint i < 6))"
proof -
  have h: "2 \<le>s (2 :: 32 word)" "2 \<le>s (3 :: 32 word)"
    by (simp_all add: word_sle_eq)
  obtain s' where "sphereDetail 2 3 example_state = Inr s'"
    and "int (length (sphereVtx s')) = sint (2 :: 32 word) * sint (3 :: 32 word)"
    and "int (length (sphereIdx s')) = sint (2 :: 32 word) * (sint (3 :: 32 word) - 1) * 2"
    and "\<forall>i \<in> set (sphereIdx s'). uint i < sint (2 :: 32 word) * sint (3 :: 32 word)"
    using sphereDetail_mesh [OF h, of example_state] by blast
  then show ?thesis
    using h by simp
qed

text \<open>
  Claim C3. With a non-empty ellipse mesh, \<open>ellipse(x, y, width, height)\<close> returns, and
  every draw call it issues is issued under the modelview matrix that carries the box around
  the unit mesh onto: in mode \<open>CENTER\<close>, the rectangle centred at \<open>(x, y)\<close> with sides
  \<open>width\<close> and \<open>height\<close>; in mode \<open>RADIUS\<close>, the rectangle centred at \<open>(x, y)\<close> with
  sides \<open>2 * width\<close> and \<open>2 * height\<close>; in mode \<open>CORNERS\<close>, the rectangle with the
  opposite corners \<open>(x, y)\<close> and \<open>(width, height)\<close>. There is such a draw call whenever the
  fill or the stroke colour is not fully transparent. The four mode constants are assumed
  distinct where the \<open>switch\<close> needs it.
\<close>

theorem ellipse_modes:
  assumes "ellipseVtx s \<noteq> []"
  shows "\<exists>s'. ellipse k x y width height s = Inr s'
           \<and> filter is_transform (issued s s') =
               (case ellipse_switch k (g_ellipseMode s) x y width height of
                  (x', y', width', height') \<Rightarrow>
                    [GlTranslatef x' y' 0, GlScalef width' height' 1,
                     GlTranslatef (1 / 2) (1 / 2) 0])
           \<and> (0 < rgba3 (fillColor s) \<or> 0 < rgba3 (strokeColor s) \<longrightarrow>
                gl_draws (issued s s') g \<noteq> [])
           \<and> (\<forall>d \<in> set (gl_draws (issued s s') g).
                 (g_ellipseMode s = CENTER k \<longrightarrow>
                    places_box (modelview (snd d)) (modelview g)
                      (x - width / 2) (y - height / 2) (x + width / 2) (y + height / 2))
               \<and> (g_ellipseMode s = RADIUS k \<and> RADIUS k \<noteq> CENTER k \<longrightarrow>
                    places_box (modelview (snd d)) (modelview g)
                      (x - width) (y - height) (x + width) (y + height))
               \<and> (g_ellipseMode s = CORNERS k \<and> CORNERS k \<noteq> CENTER k
                    \<and> CORNERS k \<noteq> RADIUS k \<longrightarrow>
                    places_box (modelview (snd d)) (modelview g) x y width height))"
proof -
  obtain x' y' width' height'
    where sw: "ellipse_switch k (g_ellipseMode s) x y width height = (x', y', width', height')"
    by (metis prod_cases4)
  let ?s' = "emit (ellipse_calls x' y' width' height' s) s"
  have run: "ellipse k x y width height s = Inr ?s'"
    using assms sw by (simp add: ellipse_eq)
  have calls: "filter is_transform (issued s ?s') =
      (case ellipse_switch k (g_ellipseMode s) x y width height of
         (x', y', width', height') \<Rightarrow>
           [GlTranslatef x' y' 0, GlScalef width' height' 1, GlTranslatef (1 / 2) (1 / 2) 0])"
    by (simp add: sw ellipse_calls_def)
  have draws: "0 < rgba3 (fillColor s) \<or> 0 < rgba3 (strokeColor s) \<longrightarrow>
      gl_draws (issued s ?s') g \<noteq> []"
    using ellipse_draws_nonempty [of s x' y' width' height' g]
    by (simp only: issued_emit) blast
  have box: "places_box (modelview (snd d)) (modelview g) x' y' (x' + width') (y' + height')"
    if "d \<in> set (gl_draws (issued s ?s') g)" for d
    using that by (simp only: issued_emit) (rule ellipse_draws)
  have center: "places_box (modelview (snd d)) (modelview g)
      (x - width / 2) (y - height / 2) (x + width / 2) (y + height / 2)"
    if "d \<in> set (gl_draws (issued s ?s') g)" "g_ellipseMode s = CENTER k" for d
  proof -
    have "x' = x - width / 2" "y' = y - height / 2" "width' = width" "height' = height"
      using sw that(2) by (simp_all add: ellipse_switch_def)
    moreover have "x - width / 2 + width = x + width / 2" "y - height / 2 + height = y + height / 2"
      by (simp_all add: field_simps)
    ultimately show ?thesis
      using box [OF that(1)] by (simp add: add.commute)
  qed
  have radius: "places_box (modelview (snd d)) (modelview g)
      (x - width) (y - height) (x + width) (y + height)"
    if "d \<in> set (gl_draws (issued s ?s') g)" "g_ellipseMode s = RADIUS k" "RADIUS k \<noteq> CENTER k"
    for d
  proof -
    have "x' = x - width" "y' = y - height" "width' = width * 2" "height' = height * 2"
      using sw that(2,3) by (simp_all add: ellipse_switch_def)
    then show ?thesis
      using box [OF that(1)] by (simp add: add.commute)
  qed
  have corners: "places_box (modelview (snd d)) (modelview g) x y width height"
    if "d \<in> set (gl_draws (issued s ?s') g)" "g_ellipseMode s = CORNERS k"
      "CORNERS k \<noteq> CENTER k" "CORNERS k \<noteq> RADIUS k" for d
  proof -
    have "x' = x" "y' = y" "width' = width - x" "height' = height - y"
      using sw that(2,3,4) by (simp_all add: ellipse_switch_def)
    then show ?thesis
      using box [OF that(1)] by simp
  qed
  show ?thesis
    using run calls draws center radius corners by blast
qed

theorem ellipse_modes_witness:
  "\<exists>s0. ellipseDetail 4 example_state = Inr s0 \<and> ellipseVtx s0 \<noteq> []
      \<and> g_ellipseMode s0 = CENTER example_modes
      \<and> (\<exists>s'. ellipse example_modes 10 10 4 4 s0 = Inr s'
            \<and> gl_draws (issued s0 s') gl_initial \<noteq> []
            \<and> (\<forall>d \<in> set (gl_draws (issued s0 s') gl_initial).
                  modelview (snd d) (PVector 0 0 0) = PVector 10 10 0
                  \<and> modelview (snd d) (PVector (- 1 / 2) (- 1 / 2) 0) = PVector 8 8 0
                  \<and> modelview (snd d) (PVector (1 / 2) (1 / 2) 0) = PVector 12 12 0))
      \<and> (\<exists>s1. ellipseMode example_modes (RADIUS example_modes) s0 = Inr s1
            \<and> (\<exists>s'. ellipse example_modes 10 10 4 4 s1 = Inr s'
                  \<and> gl_draws (issued s1 s') gl_initial \<noteq> []
                  \<and> (\<forall>d \<in> set (gl_draws (issued s1 s') gl_initial).
                        modelview (snd d) (PVector 0 0 0) = PVector 10 10 0
                        \<and> modelview (snd d) (PVector (- 1 / 2) (- 1 / 2) 0) = PVector 6 6 0
                        \<and> modelview (snd d) (PVector (1 / 2) (1 / 2) 0) = PVector 14 14 0)))
      \<and> (\<exists>s2. ellipseMode example_modes (CORNERS example_modes) s0 = Inr s2
            \<and> (\<exists>s'. ellipse example_modes 0 0 10 6 s2 = Inr s'
                  \<and> gl_draws (issued s2 s') gl_initial \<noteq> []
                  \<and> (\<forall>d \<in> set (gl_draws (issued s2 s') gl_initial).
                        modelview (snd d) (PVector (- 1 / 2) (- 1 / 2) 0) = PVector 0 0 0
                        \<and> modelview (snd d) (PVector (1 / 2) (1 / 2) 0) = PVector 10 6 0)))"
proof -
  let ?s0 = "example_state\<lparr>ellipseVtx := map (ellipse_vertex 4) [0..<unat (4 :: 32 word)]\<rparr>"
  let ?s1 = "?s0\<lparr>g_ellipseMode := RADIUS example_modes\<rparr>"
  let ?s2 = "?s0\<lparr>g_ellipseMode := CORNERS example_modes\<rparr>"
  have ne: "ellipseVtx ?s0 \<noteq> []" "ellipseVtx ?s1 \<noteq> []" "ellipseVtx ?s2 \<noteq> []"
    by simp_all
  have colour: "0 < rgba3 (fillColor ?s0)" "0 < rgba3 (fillColor ?s1)" "0 < rgba3 (fillColor ?s2)"
    by (simp_all add: example_state_def init_def)
  have mode: "g_ellipseMode ?s0 = CENTER example_modes"
    "g_ellipseMode ?s1 = RADIUS example_modes \<and> RADIUS example_modes \<noteq> CENTER example_modes"
    "g_ellipseMode ?s2 = CORNERS example_modes \<and> CORNERS example_modes \<noteq> CENTER example_modes
       \<and> CORNERS example_modes \<noteq> RADIUS example_modes"
    by (simp_all add: example_state_def init_def example_modes_def)
  have id: "modelview gl_initial v = v" for v
    by (simp add: gl_initial_def)
  have set1: "ellipseMode example_modes (RADIUS example_modes) ?s0 = Inr ?s1"
    by (simp add: ellipseMode_def)
  have set2: "ellipseMode example_modes (CORNERS example_modes) ?s0 = Inr ?s2"
    by (simp add: ellipseMode_def)
  obtain t0 where t0: "ellipse example_modes 10 10 4 4 ?s0 = Inr t0"
    "gl_draws (issued ?s0 t0) gl_initial \<noteq> []"
    "\<forall>d \<in> set (gl_draws (issued ?s0 t0) gl_initial).
       places_box (modelview (snd d)) (modelview gl_initial)
         (10 - 4 / 2) (10 - 4 / 2) (10 + 4 / 2) (10 + 4 / 2)"
    using ellipse_modes [OF ne(1), of example_modes 10 10 4 4 gl_initial] colour(1) mode(1)
    by blast
  obtain t1 where t1: "ellipse example_modes 10 10 4 4 ?s1 = Inr t1"
    "gl_draws (issued ?s1 t1) gl_initial \<noteq> []"
    "\<forall>d \<in> set (gl_draws (issued ?s1 t1) gl_initial).
       places_box (modelview (snd d)) (modelview gl_initial) (10 - 4) (10 - 4) (10 + 4) (10 + 4)"
    using ellipse_modes [OF ne(2), of example_modes 10 10 4 4 gl_initial] colour(2) mode(2)
    by blast
  obtain t2 where t2: "ellipse example_modes 0 0 10 6 ?s2 = Inr t2"
    "gl_draws (issued ?s2 t2) gl_initial \<noteq> []"
    "\<forall>d \<in> set (gl_draws (issued ?s2 t2) gl_initial).
       places_box (modelview (snd d)) (modelview gl_initial) 0 0 10 6"
    using ellipse_modes [OF ne(3), of example_modes 0 0 10 6 gl_initial] colour(3) mode(3)
    by blast
  have c0: "\<forall>d \<in> set (gl_draws (issued ?s0 t0) gl_initial).
      modelview (snd d) (PVector 0 0 0) = PVector 10 10 0
      \<and> modelview (snd d) (PVector (- 1 / 2) (- 1 / 2) 0) = PVector 8 8 0
      \<and> modelview (snd d) (PVector (1 / 2) (1 / 2) 0) = PVector 12 12 0"
  proof
    fix d
    assume "d \<in> set (gl_draws (issued ?s0 t0) gl_initial)"
    then have "places_box (modelview (snd d)) (\<lambda>v. v) (10 - 4 / 2) (10 - 4 / 2) (10 + 4 / 2) (10 + 4 / 2)"
      using t0(3) by (simp add: id [abs_def])
    from places_box_corners [OF this, of 0] show "modelview (snd d) (PVector 0 0 0) = PVector 10 10 0
      \<and> modelview (snd d) (PVector (- 1 / 2) (- 1 / 2) 0) = PVector 8 8 0
      \<and> modelview (snd d) (PVector (1 / 2) (1 / 2) 0) = PVector 12 12 0"
      by simp
  qed
  have c1: "\<forall>d \<in> set (gl_draws (issued ?s1 t1) gl_initial).
      modelview (snd d) (PVector 0 0 0) = PVector 10 10 0
      \<and> modelview (snd d) (PVector (- 1 / 2) (- 1 / 2) 0) = PVector 6 6 0
      \<and> modelview (snd d) (PVector (1 / 2) (1 / 2) 0) = PVector 14 14 0"
  proof
    fix d
    assume "d \<in> set (gl_draws (issued ?s1 t1) gl_initial)"
    then have "places_box (modelview (snd d)) (\<lambda>v. v) (10 - 4) (10 - 4) (10 + 4) (10 + 4)"
      using t1(3) by (simp add: id [abs_def])
    from places_box_corners [OF this, of 0] show "modelview (snd d) (PVector 0 0 0) = PVector 10 10 0
      \<and> modelview (snd d) (PVector (- 1 / 2) (- 1 / 2) 0) = PVector 6 6 0
      \<and> modelview (snd d) (PVector (1 / 2) (1 / 2) 0) = PVector 14 14 0"
      by simp
  qed
  have c2: "\<forall>d \<in> set (gl_draws (issued ?s2 t2) gl_initial).
      modelview (snd d) (PVector (- 1 / 2) (- 1 / 2) 0) = PVector 0 0 0
      \<and> modelview (snd d) (PVector (1 / 2) (1 / 2) 0) = PVector 10 6 0"
  proof
    fix d
    assume "d \<in> set (gl_draws (issued ?s2 t2) gl_initial)"
    then have "places_box (modelview (snd d)) (\<lambda>v. v) 0 0 10 6"
      using t2(3) by (simp add: id [abs_def])
    from places_box_corners [OF this, of 0] show "modelview (snd d) (PVector (- 1 / 2) (- 1 / 2) 0) = PVector 0 0 0
      \<and> modelview (snd d) (PVector (1 / 2) (1 / 2) 0) = PVector 10 6 0"
      by simp
  qed
  show ?thesis
    using example_mesh ne(1) mode(1) t0(1,2) c0 set1 t1(1,2) c1 set2 t2(1,2) c2 by blast
qed

text \<open>
  Claim C4. In mode \<open>CORNER\<close> (a constant different from the three others) the
  \<open>switch\<close> of \<open>ellipse\<close> leaves \<open>x\<close>, \<open>y\<close>, \<open>width\<close> and \<open>height\<close> as they are.
  When the call returns (the ellipse mesh is not empty), the transforms issued are
  \<open>translate(x, y)\<close>, \<open>scale(width, height)\<close>, \<open>translate(1/2, 1/2)\<close>, in this order, and
  under them the box around the unit mesh has its corner \<open>(-1/2, -1/2)\<close> at \<open>(x, y)\<close> and
  its opposite corner at \<open>(x + width, y + height)\<close>.
\<close>

theorem ellipse_corner:
  assumes "g_ellipseMode s = CORNER k"
    and "CORNER k \<noteq> CENTER k" and "CORNER k \<noteq> RADIUS k" and "CORNER k \<noteq> CORNERS k"
  shows "ellipse_switch k (g_ellipseMode s) x y width height = (x, y, width, height)
         \<and> (ellipseVtx s \<noteq> [] \<longrightarrow>
              (\<exists>s'. ellipse k x y width height s = Inr s'
                 \<and> filter is_transform (issued s s') =
                     [GlTranslatef x y 0, GlScalef width height 1, GlTranslatef (1 / 2) (1 / 2) 0]
                 \<and> (0 < rgba3 (fillColor s) \<or> 0 < rgba3 (strokeColor s) \<longrightarrow>
                      gl_draws (issued s s') g \<noteq> [])
                 \<and> (\<forall>d \<in> set (gl_draws (issued s s') g).
                       places_box (modelview (snd d)) (modelview g) x y (x + width) (y + height))))"
proof -
  let ?s' = "emit (ellipse_calls x y width height s) s"
  have sw: "ellipse_switch k (g_ellipseMode s) x y width height = (x, y, width, height)"
    using assms by (simp add: ellipse_switch_def)
  have run: "ellipse k x y width height s = Inr ?s'" if "ellipseVtx s \<noteq> []"
    using that sw by (simp add: ellipse_eq)
  have calls: "filter is_transform (issued s ?s') =
      [GlTranslatef x y 0, GlScalef width height 1, GlTranslatef (1 / 2) (1 / 2) 0]"
    by (simp add: ellipse_calls_def)
  have draws: "0 < rgba3 (fillColor s) \<or> 0 < rgba3 (strokeColor s) \<longrightarrow>
      gl_draws (issued s ?s') g \<noteq> []"
    using ellipse_draws_nonempty [of s x y width height g]
    by (simp only: issued_emit) blast
  have box: "\<forall>d \<in> set (gl_draws (issued s ?s') g).
      places_box (modelview (snd d)) (modelview g) x y (x + width) (y + height)"
    by (simp only: issued_emit) (blast intro: ellipse_draws)
  show ?thesis
    using sw run calls draws box by blast
qed

theorem ellipse_corner_witness:
  "\<exists>s0 s3. ellipseDetail 4 example_state = Inr s0
      \<and> ellipseMode example_modes (CORNER example_modes) s0 = Inr s3
      \<and> g_ellipseMode s3 = CORNER example_modes
      \<and> CORNER example_modes \<noteq> CENTER example_modes
      \<and> CORNER example_modes \<noteq> RADIUS example_modes
      \<and> CORNER example_modes \<noteq> CORNERS example_modes
      \<and> ellipseVtx s3 \<noteq> []
      \<and> (\<exists>s'. ellipse example_modes 1 2 10 6 s3 = Inr s'
            \<and> filter is_transform (issued s3 s') =
                 [GlTranslatef 1 2 0, GlScalef 10 6 1, GlTranslatef (1 / 2) (1 / 2) 0]
            \<and> gl_draws (issued s3 s') gl_initial \<noteq> []
            \<and> (\<forall>d \<in> set (gl_draws (issued s3 s') gl_initial).
                  modelview (snd d) (PVector (- 1 / 2) (- 1 / 2) 0) = PVector 1 2 0
                  \<and> modelview (snd d) (PVector (1 / 2) (1 / 2) 0) = PVector 11 8 0))"
proof -
  let ?s0 = "example_state\<lparr>ellipseVtx := map (ellipse_vertex 4) [0..<unat (4 :: 32 word)]\<rparr>"
  let ?s3 = "?s0\<lparr>g_ellipseMode := CORNER example_modes\<rparr>"
  have mode: "g_ellipseMode ?s3 = CORNER example_modes"
    and distinct: "CORNER example_modes \<noteq> CENTER example_modes"
      "CORNER example_modes \<noteq> RADIUS example_modes"
      "CORNER example_modes \<noteq> CORNERS example_modes"
    and ne: "ellipseVtx ?s3 \<noteq> []"
    by (simp_all add: example_modes_def)
  have colour: "0 < rgba3 (fillColor ?s3)"
    by (simp add: example_state_def init_def)
  have set3: "ellipseMode example_modes (CORNER example_modes) ?s0 = Inr ?s3"
    by (simp add: ellipseMode_def)
  obtain t where t: "ellipse example_modes 1 2 10 6 ?s3 = Inr t"
    "filter is_transform (issued ?s3 t) =
       [GlTranslatef 1 2 0, GlScalef 10 6 1, GlTranslatef (1 / 2) (1 / 2) 0]"
    "gl_draws (issued ?s3 t) gl_initial \<noteq> []"
    "\<forall>d \<in> set (gl_draws (issued ?s3 t) gl_initial).
       places_box (modelview (snd d)) (modelview gl_initial) 1 2 (1 + 10) (2 + 6)"
    using ellipse_corner [OF mode distinct, of 1 2 10 6 gl_initial] colour ne by blast
  have "\<forall>d \<in> set (gl_draws (issued ?s3 t) gl_initial).
      modelview (snd d) (PVector (- 1 / 2) (- 1 / 2) 0) = PVector 1 2 0
      \<and> modelview (snd d) (PVector (1 / 2) (1 / 2) 0) = PVector 11 8 0"
  proof
    fix d
    assume "d \<in> set (gl_draws (issued ?s3 t) gl_initial)"
    then have "places_box (modelview (snd d)) (\<lambda>v. v) 1 2 (1 + 10) (2 + 6)"
      using t(4) by (simp add: gl_initial_def)
    from places_box_corners [OF this, of 0]
    show "modelview (snd d) (PVector (- 1 / 2) (- 1 / 2) 0) = PVector 1 2 0
      \<and> modelview (snd d) (PVector (1 / 2) (1 / 2) 0) = PVector 11 8 0"
      by simp
  qed
  then show ?thesis
    using example_mesh set3 mode distinct ne t(1,2,3) by blast
qed

text \<open>
  Claim C5. \<open>ellipseMode(mode)\<close> fails its assertion exactly when \<open>mode\<close> is none of
  \<open>CENTER\<close>, \<open>RADIUS\<close>, \<open>CORNER\<close>, \<open>CORNERS\<close>; otherwise it stores \<open>mode\<close> and changes
  nothing else. After any sequence of calls of this unit that contains no further
  \<open>ellipseMode\<close> call, a \<open>sphereDetail\<close> call that divides by zero included, the stored
  mode is still \<open>mode\<close>, and an \<open>ellipse(x, y, width, height)\<close> call returns whenever the
  mesh is not empty and then issues the transforms of that mode:
  \<open>translate(x - width/2, y - height/2)\<close>, \<open>scale(width, height)\<close> for \<open>CENTER\<close>;
  \<open>translate(x - width, y - height)\<close>, \<open>scale(2 width, 2 height)\<close> for \<open>RADIUS\<close>;
  \<open>translate(x, y)\<close>, \<open>scale(width - x, height - y)\<close> for \<open>CORNERS\<close>;
  \<open>translate(x, y)\<close>, \<open>scale(width, height)\<close> for \<open>CORNER\<close>; each followed by
  \<open>translate(1/2, 1/2)\<close>. The assertion is taken as enabled (no \<open>NDEBUG\<close>).
\<close>

theorem ellipseMode_validates:
  "(ellipseMode k mode s = Inl AssertionFailed \<longleftrightarrow>
      mode \<notin> {CENTER k, RADIUS k, CORNER k, CORNERS k})
   \<and> (mode \<in> {CENTER k, RADIUS k, CORNER k, CORNERS k} \<longrightarrow>
        ellipseMode k mode s = Inr (s\<lparr>g_ellipseMode := mode\<rparr>))
   \<and> (\<forall>s1 cs s2. ellipseMode k mode s = Inr s1 \<and> (\<forall>c \<in> set cs. \<not> is_EllipseMode c)
          \<and> steps k cs s1 s2 \<longrightarrow>
        g_ellipseMode s2 = mode
        \<and> (\<forall>x y width height.
              (ellipseVtx s2 \<noteq> [] \<longrightarrow> (\<exists>s3. ellipse k x y width height s2 = Inr s3))
              \<and> (\<forall>s3. ellipse k x y width height s2 = Inr s3 \<longrightarrow>
                   (mode = CENTER k \<longrightarrow>
                      filter is_transform (issued s2 s3) =
                        [GlTranslatef (x - width / 2) (y - height / 2) 0,
                         GlScalef width height 1, GlTranslatef (1 / 2) (1 / 2) 0])
                 \<and> (mode = RADIUS k \<and> RADIUS k \<noteq> CENTER k \<longrightarrow>
                      filter is_transform (issued s2 s3) =
                        [GlTranslatef (x - width) (y - height) 0,
                         GlScalef (width * 2) (height * 2) 1, GlTranslatef (1 / 2) (1 / 2) 0])
                 \<and> (mode = CORNERS k \<and> CORNERS k \<noteq> CENTER k
                      \<and> CORNERS k \<noteq> RADIUS k \<longrightarrow>
                      filter is_transform (issued s2 s3) =
                        [GlTranslatef x y 0, GlScalef (width - x) (height - y) 1,
                         GlTranslatef (1 / 2) (1 / 2) 0])
                 \<and> (mode = CORNER k \<and> CORNER k \<noteq> CENTER k \<and> CORNER k \<noteq> RADIUS k
                      \<and> CORNER k \<noteq> CORNERS k \<longrightarrow>
                      filter is_transform (issued s2 s3) =
                        [GlTranslatef x y 0, GlScalef width height 1,
                         GlTranslatef (1 / 2) (1 / 2) 0]))))"
proof -
  have fails: "ellipseMode k mode s = Inl AssertionFailed \<longleftrightarrow>
      mode \<notin> {CENTER k, RADIUS k, CORNER k, CORNERS k}"
    by (simp add: ellipseMode_def)
  have sets: "mode \<in> {CENTER k, RADIUS k, CORNER k, CORNERS k} \<longrightarrow>
      ellipseMode k mode s = Inr (s\<lparr>g_ellipseMode := mode\<rparr>)"
    by (simp add: ellipseMode_def)
  have later: "g_ellipseMode s2 = mode
      \<and> (\<forall>x y width height.
            (ellipseVtx s2 \<noteq> [] \<longrightarrow> (\<exists>s3. ellipse k x y width height s2 = Inr s3))
            \<and> (\<forall>s3. ellipse k x y width height s2 = Inr s3 \<longrightarrow>
                 (mode = CENTER k \<longrightarrow>
                    filter is_transform (issued s2 s3) =
                      [GlTranslatef (x - width / 2) (y - height / 2) 0,
                       GlScalef width height 1, GlTranslatef (1 / 2) (1 / 2) 0])
               \<and> (mode = RADIUS k \<and> RADIUS k \<noteq> CENTER k \<longrightarrow>
                    filter is_transform (issued s2 s3) =
                      [GlTranslatef (x - width) (y - height) 0,
                       GlScalef (width * 2) (height * 2) 1, GlTranslatef (1 / 2) (1 / 2) 0])
               \<and> (mode = CORNERS k \<and> CORNERS k \<noteq> CENTER k
                    \<and> CORNERS k \<noteq> RADIUS k \<longrightarrow>
                    filter is_transform (issued s2 s3) =
                      [GlTranslatef x y 0, GlScalef (width - x) (height - y) 1,
                       GlTranslatef (1 / 2) (1 / 2) 0])
               \<and> (mode = CORNER k \<and> CORNER k \<noteq> CENTER k \<and> CORNER k \<noteq> RADIUS k
                    \<and> CORNER k \<noteq> CORNERS k \<longrightarrow>
                    filter is_transform (issued s2 s3) =
                      [GlTranslatef x y 0, GlScalef width height 1,
                       GlTranslatef (1 / 2) (1 / 2) 0])))"
    if "ellipseMode k mode s = Inr s1" "\<forall>c \<in> set cs. \<not> is_EllipseMode c"
      "steps k cs s1 s2" for s1 cs s2
  proof -
    have "g_ellipseMode s1 = mode"
      using that(1) by (auto simp: ellipseMode_def split: if_splits)
    then have mode: "g_ellipseMode s2 = mode"
      using steps_mode [OF that(3) that(2)] by simp
    have returns: "ellipseVtx s2 \<noteq> [] \<longrightarrow> (\<exists>s3. ellipse k x y width height s2 = Inr s3)"
      for x y width height
      by (simp add: ellipse_eq split: prod.splits)
    have transforms: "filter is_transform (issued s2 s3) =
        (case ellipse_switch k mode x y width height of
           (x', y', width', height') \<Rightarrow>
             [GlTranslatef x' y' 0, GlScalef width' height' 1, GlTranslatef (1 / 2) (1 / 2) 0])"
      if "ellipse k x y width height s2 = Inr s3" for x y width height s3
      using ellipse_transforms [OF that] mode by simp
    show ?thesis
      using mode returns transforms by (auto simp: ellipse_switch_def)
  qed
  show ?thesis
    using fails sets later by blast
qed

theorem ellipseMode_validates_witness:
  "ellipseMode example_modes 7 example_state = Inl AssertionFailed
   \<and> (\<exists>s1 s2 s3. ellipseMode example_modes (CORNERS example_modes) example_state = Inr s1
         \<and> steps example_modes [EllipseDetail 4, SphereDetail 3 1, Quad 0 0 1 0 1 1 0 1] s1 s2
         \<and> g_ellipseMode s2 = CORNERS example_modes
         \<and> ellipse example_modes 1 2 10 6 s2 = Inr s3
         \<and> filter is_transform (issued s2 s3) =
              [GlTranslatef 1 2 0, GlScalef 9 4 1, GlTranslatef (1 / 2) (1 / 2) 0])"
proof -
  let ?s1 = "example_state\<lparr>g_ellipseMode := CORNERS example_modes\<rparr>"
  let ?cs = "[EllipseDetail 4, SphereDetail 3 1, Quad 0 0 1 0 1 1 0 1]"
  let ?a = "?s1\<lparr>ellipseVtx := map (ellipse_vertex 4) [0..<unat (4 :: 32 word)]\<rparr>"
  let ?b = "?a\<lparr>ures := 3, vres := 1, sphereVtx := replicate 3 (PVector 0 0 0),
      sphereIdx := sphereDetail_col 3 1 0 []\<rparr>"
  let ?s2 = "quad 0 0 1 0 1 1 0 1 ?b"
  have bad: "(7 :: 32 word) \<notin> {CENTER example_modes, RADIUS example_modes,
      CORNER example_modes, CORNERS example_modes}"
    by (simp add: example_modes_def)
  have good: "CORNERS example_modes \<in> {CENTER example_modes, RADIUS example_modes,
      CORNER example_modes, CORNERS example_modes}"
    by simp
  have corners: "CORNERS example_modes = CORNERS example_modes
      \<and> CORNERS example_modes \<noteq> CENTER example_modes
      \<and> CORNERS example_modes \<noteq> RADIUS example_modes"
    by (simp add: example_modes_def)
  have fails: "ellipseMode example_modes 7 example_state = Inl AssertionFailed"
    using ellipseMode_validates [of example_modes 7 example_state] bad by blast
  have s1: "ellipseMode example_modes (CORNERS example_modes) example_state = Inr ?s1"
    using ellipseMode_validates [of example_modes "CORNERS example_modes" example_state] good
    by blast
  have "step example_modes (EllipseDetail 4) ?s1 ?a"
    by (rule step.returns) (simp add: ellipseDetail_eq)
  moreover have "step example_modes (SphereDetail 3 1) ?a ?b"
    by (rule step.carries_on) (simp_all add: sphereDetail_eq word_sless_alt)
  moreover have "step example_modes (Quad 0 0 1 0 1 1 0 1) ?b ?s2"
    by (rule step.returns) simp
  ultimately have s2: "steps example_modes ?cs ?s1 ?s2"
    by (blast intro: steps.intros)
  have none: "\<forall>c \<in> set ?cs. \<not> is_EllipseMode c"
    by simp
  have ne: "ellipseVtx ?s2 \<noteq> []"
    by (simp add: quad_eq)
  note later = ellipseMode_validates [of example_modes "CORNERS example_modes" example_state,
      THEN conjunct2, THEN conjunct2, rule_format, of ?s1 ?cs ?s2, OF conjI [OF s1 conjI [OF none s2]]]
  have mode: "g_ellipseMode ?s2 = CORNERS example_modes"
    using later by blast
  obtain s3 where s3: "ellipse example_modes 1 2 10 6 ?s2 = Inr s3"
    using later ne by blast
  have "filter is_transform (issued ?s2 s3) =
      [GlTranslatef 1 2 0, GlScalef (10 - 1) (6 - 2) 1, GlTranslatef (1 / 2) (1 / 2) 0]"
    using later s3 corners by blast
  then have "filter is_transform (issued ?s2 s3) =
      [GlTranslatef 1 2 0, GlScalef 9 4 1, GlTranslatef (1 / 2) (1 / 2) 0]"
    by simp
  then show ?thesis
    using fails s1 s2 mode s3 by blast
qed

text \<open>
  Claim C6, amended. \<open>ellipse\<close> runs into the out-of-range access \<open>ellipseVtx[0]\<close>
  exactly when the ellipse mesh is empty, and \<open>sphere\<close> runs into \<open>sphereVtx[0]\<close>
  whenever the sphere vertex array is empty. In any state, \<open>sphere\<close> indexes out of range
  exactly when the vertex array is empty, or the index array is empty and a pass is drawn.
  In every state that the program reaches from its start by calls none of which divides by
  zero, the empty vertex array is the only case. At the start of the program both meshes
  are empty, so both calls fail there.
\<close>

theorem empty_cache_out_of_range:
  "(ellipse k x y width height s = Inl OutOfRange \<longleftrightarrow> ellipseVtx s = [])
   \<and> (sphereVtx s = [] \<longrightarrow> sphere radius s = Inl OutOfRange)
   \<and> (sphere radius s = Inl OutOfRange \<longleftrightarrow>
        sphereVtx s = []
        \<or> (sphereIdx s = [] \<and> (0 < rgba3 (fillColor s) \<or> 0 < rgba3 (strokeColor s))))
   \<and> (steps k cs (init k fc sc) s
        \<and> (\<forall>c \<in> set cs. \<forall>t. run k c t \<noteq> Inl DivisionByZero) \<longrightarrow>
        (sphere radius s = Inl OutOfRange \<longleftrightarrow> sphereVtx s = []))
   \<and> ellipse k x y width height (init k fc sc) = Inl OutOfRange
   \<and> sphere radius (init k fc sc) = Inl OutOfRange"
proof -
  have e: "ellipse k x y width height s = Inl OutOfRange \<longleftrightarrow> ellipseVtx s = []"
    by (simp add: ellipse_eq split: prod.splits)
  have v: "sphereVtx s = [] \<longrightarrow> sphere radius s = Inl OutOfRange"
    by (simp add: sphere_eq)
  have a: "sphere radius s = Inl OutOfRange \<longleftrightarrow>
      sphereVtx s = []
      \<or> (sphereIdx s = [] \<and> (0 < rgba3 (fillColor s) \<or> 0 < rgba3 (strokeColor s)))"
    by (simp add: sphere_eq)
  have r: "sphere radius s = Inl OutOfRange \<longleftrightarrow> sphereVtx s = []"
    if "steps k cs (init k fc sc) s"
      "\<forall>c \<in> set cs. \<forall>t. run k c t \<noteq> Inl DivisionByZero"
  proof -
    have "sphereVtx (init k fc sc) \<noteq> [] \<longrightarrow> sphereIdx (init k fc sc) \<noteq> []"
      by (simp add: init_def)
    with that have "sphereVtx s \<noteq> [] \<longrightarrow> sphereIdx s \<noteq> []"
      by (rule steps_sphere_inv)
    then show ?thesis
      using a by blast
  qed
  have ell0: "ellipse k x y width height (init k fc sc) = Inl OutOfRange"
    by (simp add: ellipse_eq init_def split: prod.splits)
  have sph0: "sphere radius (init k fc sc) = Inl OutOfRange"
    by (simp add: sphere_eq init_def)
  show ?thesis
    using e v a r ell0 sph0 by blast
qed

theorem empty_cache_out_of_range_witness:
  "sphereVtx example_state = []
   \<and> ellipse example_modes 10 10 4 4 example_state = Inl OutOfRange
   \<and> sphere 2 example_state = Inl OutOfRange
   \<and> (\<exists>s. steps example_modes [EllipseDetail 4, SphereDetail 2 3]
               (init example_modes (255, 255, 255, 255) (0, 0, 0, 255)) s
         \<and> sphereVtx s \<noteq> []
         \<and> ellipse example_modes 10 10 4 4 s \<noteq> Inl OutOfRange
         \<and> sphere 2 s \<noteq> Inl OutOfRange)"
proof -
  let ?i = "init example_modes (255, 255, 255, 255) (0, 0, 0, 255)"
  let ?a = "?i\<lparr>ellipseVtx := map (ellipse_vertex 4) [0..<unat (4 :: 32 word)]\<rparr>"
  let ?s = "?a\<lparr>ures := 2, vres := 3, sphereVtx := sphere_vertices 2 3,
      sphereIdx := sphere_indices 2 3\<rparr>"
  let ?cs = "[EllipseDetail 4, SphereDetail 2 3]"
  have empty: "sphereVtx example_state = []"
    by (simp add: example_state_def init_def)
  have "step example_modes (EllipseDetail 4) ?i ?a"
    by (rule step.returns) (simp add: ellipseDetail_eq)
  moreover have "step example_modes (SphereDetail 2 3) ?a ?s"
    by (rule step.returns) (simp add: sphereDetail_eq word_sless_alt)
  ultimately have run: "steps example_modes ?cs ?i ?s"
    by (blast intro: steps.intros)
  have safe: "\<forall>c \<in> set ?cs. \<forall>t. run example_modes c t \<noteq> Inl DivisionByZero"
    by (simp add: ellipseDetail_eq sphereDetail_eq word_sless_alt)
  have "length (sphere_vertices 2 3) = 6"
    by (simp add: length_sphere_vertices)
  then have ne: "ellipseVtx ?s \<noteq> []" "sphereVtx ?s \<noteq> []"
    by auto
  note A = empty_cache_out_of_range [of example_modes 10 10 4 4 example_state 2 "[]"
      "(255, 255, 255, 255)" "(0, 0, 0, 255)"]
  note B = empty_cache_out_of_range [of example_modes 10 10 4 4 ?s 2 ?cs
      "(255, 255, 255, 255)" "(0, 0, 0, 255)"]
  have "ellipse example_modes 10 10 4 4 example_state = Inl OutOfRange"
    "sphere 2 example_state = Inl OutOfRange"
    using A empty by (simp_all add: example_state_def)
  moreover have "ellipse example_modes 10 10 4 4 ?s \<noteq> Inl OutOfRange"
    using B ne(1) by blast
  moreover have "sphere 2 ?s \<noteq> Inl OutOfRange"
    using B run safe ne(2) by blast
  ultimately show ?thesis
    using empty run ne(2) by blast
qed

text \<open>
  Claim C6 as stated fails for \<open>sphere\<close>: the empty vertex array is not the only state
  in which it indexes out of range. \<open>sphereDetail(3, 1)\<close> divides by zero and carries on; it
  leaves three vertices and an empty index array, and \<open>sphere\<close> then evaluates
  \<open>sphereIdx[0]\<close>.
\<close>

theorem empty_cache_out_of_range_counterexample:
  "\<exists>s. steps example_modes [SphereDetail 3 1] example_state s
      \<and> length (sphereVtx s) = 3 \<and> sphereIdx s = []
      \<and> sphere 2 s = Inl OutOfRange
      \<and> \<not> (sphere 2 s = Inl OutOfRange \<longleftrightarrow> sphereVtx s = [])"
proof -
  let ?s = "example_state\<lparr>ures := 3, vres := 1, sphereVtx := replicate 3 (PVector 0 0 0),
      sphereIdx := sphereDetail_col 3 1 0 []\<rparr>"
  have "step example_modes (SphereDetail 3 1) example_state ?s"
    by (rule step.carries_on) (simp_all add: sphereDetail_eq word_sless_alt)
  then have run: "steps example_modes [SphereDetail 3 1] example_state ?s"
    by (blast intro: steps.intros)
  have idx: "sphereIdx ?s = []"
    by (simp add: sphereDetail_col_eq)
  have colour: "0 < rgba3 (fillColor ?s)"
    by (simp add: example_state_def init_def)
  have out: "sphere 2 ?s = Inl OutOfRange"
    using idx colour by (simp add: sphere_eq)
  have "length (sphereVtx ?s) = 3"
    by simp
  moreover have "\<not> (sphere 2 ?s = Inl OutOfRange \<longleftrightarrow> sphereVtx ?s = [])"
    using out by simp
  ultimately show ?thesis
    using run idx out by blast
qed

text \<open>
  Claim C7. With stroke alpha 0 and fill alpha 255, \<open>quad\<close> issues exactly one fill pass
  and no outline pass. In general \<open>quad\<close> issues one fill pass unless the fill alpha is 0,
  and one outline pass unless the stroke alpha is 0; the same holds for \<open>triangle\<close>, for
  \<open>ellipse\<close> and for \<open>sphere\<close>, and with stroke alpha 0 \<open>line\<close> and \<open>point\<close> issue
  nothing at all.
\<close>

theorem alpha_passes:
  "(rgba3 (strokeColor s) = 0 \<and> rgba3 (fillColor s) = 255 \<longrightarrow>
      fill_passes (issued s (quad x0 y0 x1 y1 x2 y2 x3 y3 s)) g = 1
      \<and> outline_passes (issued s (quad x0 y0 x1 y1 x2 y2 x3 y3 s)) g = 0)
   \<and> fill_passes (issued s (quad x0 y0 x1 y1 x2 y2 x3 y3 s)) g =
       (if rgba3 (fillColor s) = 0 then 0 else 1)
   \<and> outline_passes (issued s (quad x0 y0 x1 y1 x2 y2 x3 y3 s)) g =
       (if rgba3 (strokeColor s) = 0 then 0 else 1)
   \<and> fill_passes (issued s (triangle x0 y0 z0 x1 y1 z1 x2 y2 z2 s)) g =
       (if rgba3 (fillColor s) = 0 then 0 else 1)
   \<and> outline_passes (issued s (triangle x0 y0 z0 x1 y1 z1 x2 y2 z2 s)) g =
       (if rgba3 (strokeColor s) = 0 then 0 else 1)
   \<and> (\<forall>s'. ellipse k x y width height s = Inr s' \<longrightarrow>
          fill_passes (issued s s') g = (if rgba3 (fillColor s) = 0 then 0 else 1)
          \<and> outline_passes (issued s s') g = (if rgba3 (strokeColor s) = 0 then 0 else 1))
   \<and> (\<forall>s'. sphere radius s = Inr s' \<longrightarrow>
          fill_passes (issued s s') g = (if rgba3 (fillColor s) = 0 then 0 else 1)
          \<and> outline_passes (issued s s') g = (if rgba3 (strokeColor s) = 0 then 0 else 1))
   \<and> (rgba3 (strokeColor s) = 0 \<longrightarrow>
        line x0 y0 z0 x1 y1 z1 s = s \<and> point x y z s = s)"
proof -
  have q: "fill_passes (issued s (quad x0 y0 x1 y1 x2 y2 x3 y3 s)) g =
        (if rgba3 (fillColor s) = 0 then 0 else 1)"
    "outline_passes (issued s (quad x0 y0 x1 y1 x2 y2 x3 y3 s)) g =
        (if rgba3 (strokeColor s) = 0 then 0 else 1)"
    by (simp_all add: quad_eq quad_calls_passes word_pos_iff)
  have t: "fill_passes (issued s (triangle x0 y0 z0 x1 y1 z1 x2 y2 z2 s)) g =
        (if rgba3 (fillColor s) = 0 then 0 else 1)"
    "outline_passes (issued s (triangle x0 y0 z0 x1 y1 z1 x2 y2 z2 s)) g =
        (if rgba3 (strokeColor s) = 0 then 0 else 1)"
    by (simp_all add: triangle_eq triangle_calls_passes word_pos_iff)
  have e: "fill_passes (issued s s') g = (if rgba3 (fillColor s) = 0 then 0 else 1)
      \<and> outline_passes (issued s s') g = (if rgba3 (strokeColor s) = 0 then 0 else 1)"
    if "ellipse k x y width height s = Inr s'" for s'
    using that
    by (auto simp: ellipse_eq ellipse_calls_passes word_pos_iff split: if_splits prod.splits)
  have sp: "fill_passes (issued s s') g = (if rgba3 (fillColor s) = 0 then 0 else 1)
      \<and> outline_passes (issued s s') g = (if rgba3 (strokeColor s) = 0 then 0 else 1)"
    if "sphere radius s = Inr s'" for s'
    using that
    by (auto simp: sphere_eq sphere_calls_passes word_pos_iff split: if_splits)
  have l: "rgba3 (strokeColor s) = 0 \<longrightarrow>
      line x0 y0 z0 x1 y1 z1 s = s \<and> point x y z s = s"
    by (simp add: line_def point_def)
  have first: "rgba3 (strokeColor s) = 0 \<and> rgba3 (fillColor s) = 255 \<longrightarrow>
      fill_passes (issued s (quad x0 y0 x1 y1 x2 y2 x3 y3 s)) g = 1
      \<and> outline_passes (issued s (quad x0 y0 x1 y1 x2 y2 x3 y3 s)) g = 0"
    using q by simp
  show ?thesis
    using first q t e sp l by blast
qed

theorem alpha_passes_witness:
  "rgba3 (strokeColor (example_state\<lparr>strokeColor := (0, 0, 0, 0)\<rparr>)) = 0
   \<and> rgba3 (fillColor (example_state\<lparr>strokeColor := (0, 0, 0, 0)\<rparr>)) = 255
   \<and> fill_passes (issued (example_state\<lparr>strokeColor := (0, 0, 0, 0)\<rparr>)
         (quad 0 0 1 0 1 1 0 1 (example_state\<lparr>strokeColor := (0, 0, 0, 0)\<rparr>))) gl_initial = 1
   \<and> outline_passes (issued (example_state\<lparr>strokeColor := (0, 0, 0, 0)\<rparr>)
         (quad 0 0 1 0 1 1 0 1 (example_state\<lparr>strokeColor := (0, 0, 0, 0)\<rparr>))) gl_initial = 0
   \<and> line 0 0 0 1 0 1 (example_state\<lparr>strokeColor := (0, 0, 0, 0)\<rparr>)
       = example_state\<lparr>strokeColor := (0, 0, 0, 0)\<rparr>
   \<and> fill_passes (issued example_state (quad 0 0 1 0 1 1 0 1 example_state)) gl_initial = 1
   \<and> outline_passes (issued example_state (quad 0 0 1 0 1 1 0 1 example_state)) gl_initial = 1"
proof -
  let ?a = "example_state\<lparr>strokeColor := (0, 0, 0, 0)\<rparr>"
  have a: "rgba3 (strokeColor ?a) = 0" "rgba3 (fillColor ?a) = 255"
    and b: "rgba3 (fillColor example_state) \<noteq> 0" "rgba3 (strokeColor example_state) \<noteq> 0"
    by (simp_all add: example_state_def init_def)
  note A = alpha_passes [of ?a 0 0 1 0 1 1 0 1 gl_initial 0 1 1 example_modes 0 0 1 1 1 0]
  note B = alpha_passes [of example_state 0 0 1 0 1 1 0 1 gl_initial 0 1 1 example_modes
      0 0 1 1 1 0]
  have "fill_passes (issued ?a (quad 0 0 1 0 1 1 0 1 ?a)) gl_initial = 1"
    "outline_passes (issued ?a (quad 0 0 1 0 1 1 0 1 ?a)) gl_initial = 0"
    "line 0 0 0 1 0 1 ?a = ?a"
    using A a by blast+
  moreover have "fill_passes (issued example_state (quad 0 0 1 0 1 1 0 1 example_state))
      gl_initial = (if rgba3 (fillColor example_state) = 0 then 0 else 1)"
    "outline_passes (issued example_state (quad 0 0 1 0 1 1 0 1 example_state))
      gl_initial = (if rgba3 (strokeColor example_state) = 0 then 0 else 1)"
    using B by blast+
  ultimately show ?thesis
    using a b by simp
qed

text \<open>
  Claim C8. For \<open>ures \<ge> 2\<close> and \<open>vres \<ge> 2\<close> both divisors \<open>vres - 1\<close> and \<open>ures - 1\<close> are
  not zero and \<open>sphereDetail\<close> returns. Nothing is validated: the call divides by zero
  exactly when \<open>vres > 0\<close> and one of \<open>vres\<close>, \<open>ures\<close> is 1, so it does for
  \<open>vres = 1\<close>, and for \<open>ures = 1\<close> with \<open>vres = 2\<close>.
\<close>

theorem sphereDetail_division:
  "(2 \<le>s ur \<and> 2 \<le>s vr \<longrightarrow>
      sint (vr - 1) \<noteq> 0 \<and> sint (ur - 1) \<noteq> 0 \<and> (\<exists>s'. sphereDetail ur vr s = Inr s'))
   \<and> (sphereDetail ur vr s = Inl DivisionByZero \<longleftrightarrow> 0 <s vr \<and> (vr = 1 \<or> ur = 1))
   \<and> sphereDetail ur 1 s = Inl DivisionByZero
   \<and> sphereDetail 1 2 s = Inl DivisionByZero"
proof -
  have "sint (vr - 1) \<noteq> 0 \<and> sint (ur - 1) \<noteq> 0 \<and> (\<exists>s'. sphereDetail ur vr s = Inr s')"
    if "2 \<le>s ur \<and> 2 \<le>s vr"
  proof -
    have "2 \<le> sint ur" "2 \<le> sint vr"
      using that by (simp_all add: sle_2_sint)
    then have "sint (ur - 1) = sint ur - 1" "sint (vr - 1) = sint vr - 1"
      by (simp_all add: sint_minus_1)
    then show ?thesis
      using \<open>2 \<le> sint ur\<close> \<open>2 \<le> sint vr\<close> that by (simp add: sphereDetail_ok)
  qed
  moreover have "sphereDetail ur vr s = Inl DivisionByZero \<longleftrightarrow> 0 <s vr \<and> (vr = 1 \<or> ur = 1)"
    by (simp add: sphereDetail_eq)
  moreover have "sphereDetail ur 1 s = Inl DivisionByZero"
    by (simp add: sphereDetail_eq word_sless_alt)
  moreover have "sphereDetail 1 2 s = Inl DivisionByZero"
    by (simp add: sphereDetail_eq word_sless_alt)
  ultimately show ?thesis
    by blast
qed

theorem sphereDetail_division_witness:
  "2 \<le>s (2 :: 32 word) \<and> 2 \<le>s (3 :: 32 word)
   \<and> sint (3 - 1 :: 32 word) \<noteq> 0 \<and> sint (2 - 1 :: 32 word) \<noteq> 0
   \<and> (\<exists>s'. sphereDetail 2 3 example_state = Inr s')
   \<and> sphereDetail 3 1 example_state = Inl DivisionByZero
   \<and> sphereDetail 1 2 example_state = Inl DivisionByZero"
proof -
  have h: "2 \<le>s (2 :: 32 word) \<and> 2 \<le>s (3 :: 32 word)"
    by (simp add: word_sle_eq)
  show ?thesis
    using h sphereDetail_division [of 2 3 example_state]
      sphereDetail_division [of 3 1 example_state]
    by simp
qed

text \<open>
  Claim C9. When \<open>sphere(r1)\<close> returns, a following \<open>sphere(r2)\<close> returns too; the
  only transform either call issues is the uniform scale by its own radius; and neither
  call changes the vertex array, the index array, \<open>ures\<close> or \<open>vres\<close>: both draw from the
  same index array.
\<close>

theorem sphere_radius:
  assumes "sphere r1 s = Inr s1"
  shows "\<exists>s2. sphere r2 s1 = Inr s2
           \<and> filter is_transform (issued s s1) = [GlScaled r1 r1 r1]
           \<and> filter is_transform (issued s1 s2) = [GlScaled r2 r2 r2]
           \<and> sphereVtx s1 = sphereVtx s \<and> sphereVtx s2 = sphereVtx s
           \<and> sphereIdx s1 = sphereIdx s \<and> sphereIdx s2 = sphereIdx s
           \<and> ures s1 = ures s \<and> ures s2 = ures s
           \<and> vres s1 = vres s \<and> vres s2 = vres s
           \<and> (\<forall>d \<in> set (draw_elements (issued s s1) @ draw_elements (issued s1 s2)).
                 snd d = sphereIdx s)"
proof -
  have ok: "\<not> (sphereVtx s = []
      \<or> (sphereIdx s = [] \<and> (0 < rgba3 (fillColor s) \<or> 0 < rgba3 (strokeColor s))))"
    and s1: "s1 = emit (sphere_calls r1 s) s"
    using assms by (auto simp: sphere_eq split: if_splits)
  let ?s2 = "emit (sphere_calls r2 s1) s1"
  have run: "sphere r2 s1 = Inr ?s2"
    using ok by (simp add: sphere_eq s1)
  have t1: "filter is_transform (issued s s1) = [GlScaled r1 r1 r1]"
    by (simp add: s1 sphere_calls_def sphere_fill_def sphere_stroke_def)
  have t2: "filter is_transform (issued s1 ?s2) = [GlScaled r2 r2 r2]"
    by (simp add: sphere_calls_def sphere_fill_def sphere_stroke_def)
  have frame: "sphereVtx s1 = sphereVtx s" "sphereVtx ?s2 = sphereVtx s"
    "sphereIdx s1 = sphereIdx s" "sphereIdx ?s2 = sphereIdx s"
    "ures s1 = ures s" "ures ?s2 = ures s" "vres s1 = vres s" "vres ?s2 = vres s"
    by (simp_all add: s1)
  have d1: "\<forall>d \<in> set (draw_elements (issued s s1)). snd d = sphereIdx s"
    using draw_elements_sphere_calls [of r1 s] by (auto simp: s1)
  have d2: "\<forall>d \<in> set (draw_elements (issued s1 ?s2)). snd d = sphereIdx s"
    using draw_elements_sphere_calls [of r2 s1] frame(3) by auto
  have "\<forall>d \<in> set (draw_elements (issued s s1) @ draw_elements (issued s1 ?s2)).
      snd d = sphereIdx s"
    using d1 d2 by auto
  then show ?thesis
    using run t1 t2 frame by blast
qed

theorem sphere_radius_witness:
  "\<exists>s s1. sphereDetail 2 3 example_state = Inr s \<and> sphere 2 s = Inr s1
      \<and> (\<exists>s2. sphere 3 s1 = Inr s2
            \<and> filter is_transform (issued s s1) = [GlScaled 2 2 2]
            \<and> filter is_transform (issued s1 s2) = [GlScaled 3 3 3]
            \<and> sphereVtx s2 = sphereVtx s \<and> sphereIdx s2 = sphereIdx s
            \<and> ures s2 = 2 \<and> vres s2 = 3)"
proof -
  let ?s = "example_state\<lparr>ures := 2, vres := 3, sphereVtx := sphere_vertices 2 3,
      sphereIdx := sphere_indices 2 3\<rparr>"
  let ?s1 = "emit (sphere_calls 2 ?s) ?s"
  have s: "sphereDetail 2 3 example_state = Inr ?s"
    by (simp add: sphereDetail_eq word_sless_alt)
  have "length (sphere_vertices 2 3) = 6" "length (sphere_indices 2 3) = 8"
    by (simp_all add: length_sphere_vertices length_sphere_indices)
  then have "sphere_vertices 2 3 \<noteq> []" "sphere_indices 2 3 \<noteq> []"
    by auto
  then have s1: "sphere 2 ?s = Inr ?s1"
    by (simp add: sphere_eq)
  obtain s2 where "sphere 3 ?s1 = Inr s2"
    "filter is_transform (issued ?s ?s1) = [GlScaled 2 2 2]"
    "filter is_transform (issued ?s1 s2) = [GlScaled 3 3 3]"
    "sphereVtx s2 = sphereVtx ?s" "sphereIdx s2 = sphereIdx ?s"
    "ures s2 = ures ?s" "vres s2 = vres ?s"
    using sphere_radius [OF s1, of 3] by blast
  then show ?thesis
    using s s1 by (intro exI [of _ ?s] exI [of _ ?s1] exI [of _ s2]) simp
qed

text \<open>
  Claim C10, amended. After \<open>sphereDetail(u, v)\<close> with \<open>u \<ge> 2\<close> and \<open>v \<ge> 2\<close> the vertex
  array has \<open>ures * vres\<close> entries, the index array \<open>ures * (vres - 1) * 2\<close>, and every
  index is below the number of vertices. When \<open>ures * (vres - 1) * 2\<close> fits an \<open>int\<close>
  (it is below \<open>2^31\<close>), the element count that \<open>sphere\<close> passes with the index array
  equals the length of that array.
\<close>

theorem sphere_element_count:
  assumes "2 \<le>s ur" and "2 \<le>s vr"
  shows "\<exists>s'. sphereDetail ur vr s = Inr s'
           \<and> int (length (sphereVtx s')) = sint (ures s') * sint (vres s')
           \<and> int (length (sphereIdx s')) = sint (ures s') * (sint (vres s') - 1) * 2
           \<and> (\<forall>i \<in> set (sphereIdx s'). unat i < length (sphereVtx s'))
           \<and> (sint ur * (sint vr - 1) * 2 < 2 ^ 31 \<longrightarrow>
                (\<forall>radius. \<exists>t. sphere radius s' = Inr t
                   \<and> (\<forall>d \<in> set (draw_elements (issued s' t)).
                         snd d = sphereIdx s' \<and> sint (fst d) = int (length (sphereIdx s')))))"
proof -
  let ?s' = "s\<lparr>ures := ur, vres := vr, sphereVtx := sphere_vertices ur vr,
                sphereIdx := sphere_indices ur vr\<rparr>"
  have ur: "2 \<le> sint ur" and vr: "2 \<le> sint vr"
    using assms by (simp_all add: sle_2_sint)
  have run: "sphereDetail ur vr s = Inr ?s'"
    using assms by (rule sphereDetail_ok)
  have vr1: "sint (vr - 1) = sint vr - 1"
    using vr by (simp add: sint_minus_1)
  have len_vtx: "int (length (sphereVtx ?s')) = sint (ures ?s') * sint (vres ?s')"
    using ur vr by (simp add: length_sphere_vertices)
  have len_idx: "int (length (sphereIdx ?s')) = sint (ures ?s') * (sint (vres ?s') - 1) * 2"
    using ur vr by (simp add: length_sphere_indices vr1)
  have idx: "\<forall>i \<in> set (sphereIdx ?s'). unat i < length (sphereVtx ?s')"
    using sphere_index_bound [OF assms] by (simp add: length_sphere_vertices)
  have count: "\<forall>radius. \<exists>t. sphere radius ?s' = Inr t
      \<and> (\<forall>d \<in> set (draw_elements (issued ?s' t)).
            snd d = sphereIdx ?s' \<and> sint (fst d) = int (length (sphereIdx ?s')))"
    if small: "sint ur * (sint vr - 1) * 2 < 2 ^ 31"
  proof
    fix radius
    have "0 < sint ur * sint vr"
      using ur vr by (simp add: zero_less_mult_iff)
    then have vtx: "sphereVtx ?s' \<noteq> []"
      using len_vtx by auto
    have "0 < sint ur * (sint vr - 1) * 2"
      using ur vr by (simp add: zero_less_mult_iff)
    then have ne: "sphereIdx ?s' \<noteq> []"
      using len_idx by auto
    define X where "X = sint ur * (sint vr - 1)"
    have X: "0 < X" "X * 2 < 2 ^ 31"
      using \<open>0 < sint ur * (sint vr - 1) * 2\<close> small by (simp_all add: X_def)
    have "signed_take_bit 31 X = X"
      using X by (intro signed_take_bit_int_eq_self) simp_all
    moreover have "sint (ur * (vr - 1)) = signed_take_bit 31 (sint ur * sint (vr - 1))"
      by (simp add: sint_word_ariths(3))
    ultimately have "sint (ur * (vr - 1)) = X"
      by (simp only: vr1 X_def)
    moreover have "signed_take_bit 31 (X * 2) = X * 2"
      using X by (intro signed_take_bit_int_eq_self) simp_all
    moreover have "sint (ur * (vr - 1) * 2) = signed_take_bit 31 (sint (ur * (vr - 1)) * 2)"
      by (simp add: sint_word_ariths(3))
    ultimately have "sint (ur * (vr - 1) * 2) = X * 2"
      by (simp only:)
    then have "sint (ur * (vr - 1) * 2) = sint ur * (sint vr - 1) * 2"
      by (simp add: X_def)
    then have cnt: "sint (ures ?s' * (vres ?s' - 1) * 2) = int (length (sphereIdx ?s'))"
      using len_idx by simp
    have "sphere radius ?s' = Inr (emit (sphere_calls radius ?s') ?s')"
      using vtx ne by (simp add: sphere_eq)
    moreover have "\<forall>d \<in> set (draw_elements (issued ?s' (emit (sphere_calls radius ?s') ?s'))).
        snd d = sphereIdx ?s' \<and> sint (fst d) = int (length (sphereIdx ?s'))"
      using draw_elements_sphere_calls [of radius ?s'] cnt
      by (simp only: issued_emit) auto
    ultimately show "\<exists>t. sphere radius ?s' = Inr t
      \<and> (\<forall>d \<in> set (draw_elements (issued ?s' t)).
            snd d = sphereIdx ?s' \<and> sint (fst d) = int (length (sphereIdx ?s')))"
      by blast
  qed
  show ?thesis
    using run len_vtx len_idx idx count by blast
qed

theorem sphere_element_count_witness:
  "2 \<le>s (2 :: 32 word) \<and> 2 \<le>s (3 :: 32 word)
   \<and> sint (2 :: 32 word) * (sint (3 :: 32 word) - 1) * 2 < 2 ^ 31
   \<and> (\<exists>s'. sphereDetail 2 3 example_state = Inr s'
          \<and> int (length (sphereVtx s')) = 6
          \<and> int (length (sphereIdx s')) = 8
          \<and> (\<forall>i \<in> set (sphereIdx s'). unat i < 6)
          \<and> (\<exists>t. sphere 1 s' = Inr t
                \<and> (\<forall>d \<in> set (draw_elements (issued s' t)). sint (fst d) = 8)))"
proof -
  have h: "2 \<le>s (2 :: 32 word)" "2 \<le>s (3 :: 32 word)"
    by (simp_all add: word_sle_eq)
  have small: "sint (2 :: 32 word) * (sint (3 :: 32 word) - 1) * 2 < 2 ^ 31"
    by simp
  obtain s' where s': "sphereDetail 2 3 example_state = Inr s'"
    and "int (length (sphereVtx s')) = sint (ures s') * sint (vres s')"
    and "int (length (sphereIdx s')) = sint (ures s') * (sint (vres s') - 1) * 2"
    and "\<forall>i \<in> set (sphereIdx s'). unat i < length (sphereVtx s')"
    and all: "\<forall>radius. \<exists>t. sphere radius s' = Inr t
           \<and> (\<forall>d \<in> set (draw_elements (issued s' t)).
                 snd d = sphereIdx s' \<and> sint (fst d) = int (length (sphereIdx s')))"
    using sphere_element_count [OF h, of example_state] small by blast
  moreover have "ures s' = 2" "vres s' = 3"
    using s' by (auto simp: sphereDetail_def Let_def split: sum.splits)
  ultimately have len: "int (length (sphereVtx s')) = 6" "int (length (sphereIdx s')) = 8"
    and idx: "\<forall>i \<in> set (sphereIdx s'). unat i < 6"
    by auto
  obtain t where "sphere 1 s' = Inr t"
    and "\<forall>d \<in> set (draw_elements (issued s' t)). sint (fst d) = int (length (sphereIdx s'))"
    using all by blast
  then have "\<exists>t. sphere 1 s' = Inr t
      \<and> (\<forall>d \<in> set (draw_elements (issued s' t)). sint (fst d) = 8)"
    using len by auto
  then show ?thesis
    using h small s' len idx by blast
qed

text \<open>
  Claim C10 as stated, without the bound, fails: \<open>sphere\<close> computes the element count
  \<open>ures * (vres - 1) * 2\<close> in \<open>int\<close>. After \<open>sphereDetail(32768, 32769)\<close> the index array
  has \<open>2^31\<close> entries and the count passed is \<open>-2^31\<close>.
\<close>

theorem sphere_element_count_counterexample:
  "2 \<le>s (32768 :: 32 word) \<and> 2 \<le>s (32769 :: 32 word)
   \<and> (case sphereDetail 32768 32769 example_state of
         Inl e \<Rightarrow> False
       | Inr s' \<Rightarrow>
           int (length (sphereIdx s')) = 2147483648
           \<and> (case sphere 1 s' of
                 Inl e \<Rightarrow> False
               | Inr t \<Rightarrow>
                   map (sint \<circ> fst) (draw_elements (issued s' t))
                     = [- 2147483648, - 2147483648]))"
proof -
  have h: "2 \<le>s (32768 :: 32 word)" "2 \<le>s (32769 :: 32 word)"
    by (simp_all add: word_sle_eq)
  let ?s' = "example_state\<lparr>ures := 32768, vres := 32769,
      sphereVtx := sphere_vertices 32768 32769, sphereIdx := sphere_indices 32768 32769\<rparr>"
  have run: "sphereDetail 32768 32769 example_state = Inr ?s'"
    using h by (rule sphereDetail_ok)
  have len_idx: "length (sphere_indices 32768 32769) = 2147483648"
    by (simp add: length_sphere_indices)
  have len_vtx: "length (sphere_vertices 32768 32769) = 1073774592"
    by (simp add: length_sphere_vertices)
  have ne: "sphere_indices 32768 32769 \<noteq> []" "sphere_vertices 32768 32769 \<noteq> []"
    using len_idx len_vtx by auto
  have "sphere 1 ?s' = Inr (emit (sphere_calls 1 ?s') ?s')"
    using ne by (simp add: sphere_eq)
  moreover have "map (sint \<circ> fst) (draw_elements (sphere_calls 1 ?s'))
      = [- 2147483648, - 2147483648]"
    by (simp add: sphere_calls_def sphere_fill_def sphere_stroke_def example_state_def init_def)
  ultimately show ?thesis
    using h run len_idx by (simp only: issued_emit sum.case) simp
qed

end
